theory Spec2Isabelle
  imports Main
begin

section \<open>Lexical path operations used by the FTP binding\<close>

text \<open>
  The binding (\<^verbatim>\<open>bindings/ftp/ftp.go\<close>) resolves client-supplied names with
  \<^verbatim>\<open>securejoin.SecureJoin\<close>, \<^verbatim>\<open>filepath.Dir\<close> and \<^verbatim>\<open>filepath.Base\<close>.
  These three come from the Go standard library and from the library
  \<^verbatim>\<open>github.com/cyphar/filepath-securejoin\<close>; they are embedded here after their
  published algorithms, for a Unix target (separator \<^verbatim>\<open>/\<close>, no volume names).
  Go strings are byte sequences, as \<^typ>\<open>string\<close> is.
\<close>

definition notSep :: "char \<Rightarrow> bool" where
  "notSep c = (c \<noteq> CHR ''/'')"

text \<open>\<^verbatim>\<open>strings.Split(s, "/")\<close>: the elements between separators, empty ones included.\<close>

fun splitPath :: "string \<Rightarrow> string list" where
  "splitPath [] = [[]]"
| "splitPath (c # cs) =
     (if c = CHR ''/'' then [] # splitPath cs
      else (case splitPath cs of [] \<Rightarrow> [[c]] | x # xs \<Rightarrow> (c # x) # xs))"

text \<open>\<^verbatim>\<open>strings.Join(cs, "/")\<close>.\<close>

fun joinPath :: "string list \<Rightarrow> string" where
  "joinPath [] = []"
| "joinPath [c] = c"
| "joinPath (c # d # cs) = c @ CHR ''/'' # joinPath (d # cs)"

text \<open>
  One element of the scan of \<^verbatim>\<open>filepath.Clean\<close>. The output buffer is kept as the
  stack of elements written so far, last written first. An empty element and \<^verbatim>\<open>.\<close>
  are dropped; \<^verbatim>\<open>..\<close> removes the last written element when there is one that is not
  itself a leading \<^verbatim>\<open>..\<close> (Go: \<^verbatim>\<open>out.w > dotdot\<close>), is dropped at the root of a rooted
  path, and is written otherwise; any other element is written.
\<close>

definition cleanStep :: "bool \<Rightarrow> string list \<Rightarrow> string \<Rightarrow> string list" where
  "cleanStep rooted out e =
     (if e = [] then out
      else if e = ''.'' then out
      else if e = ''..'' then
        (if out \<noteq> [] \<and> hd out \<noteq> ''..'' then tl out
         else if \<not> rooted then ''..'' # out
         else out)
      else e # out)"

text \<open>
  \<^verbatim>\<open>filepath.Clean\<close>: the empty path becomes \<^verbatim>\<open>.\<close>; a rooted path keeps its leading
  separator; an unrooted path that cleans to nothing becomes \<^verbatim>\<open>.\<close>.
\<close>

definition clean :: "string \<Rightarrow> string" where
  "clean path =
     (if path = [] then ''.''
      else
        let rooted = (hd path = CHR ''/'');
            out = rev (foldl (cleanStep rooted) [] (splitPath path))
        in if rooted then CHR ''/'' # joinPath out
           else if out = [] then ''.''
           else joinPath out)"

text \<open>
  \<^verbatim>\<open>filepath.Dir\<close>: everything up to and including the last separator, cleaned.
\<close>

definition Dir :: "string \<Rightarrow> string" where
  "Dir path = clean (rev (dropWhile notSep (rev path)))"

text \<open>
  \<^verbatim>\<open>filepath.Base\<close>: \<^verbatim>\<open>.\<close> for the empty path; otherwise trailing separators are
  stripped and the last element returned, \<^verbatim>\<open>/\<close> when nothing but separators was there.
\<close>

definition Base :: "string \<Rightarrow> string" where
  "Base path =
     (if path = [] then ''.''
      else
        let stripped = rev (dropWhile (\<lambda>c. c = CHR ''/'') (rev path));
            lastElem = rev (takeWhile notSep (rev stripped))
        in if lastElem = [] then ''/'' else lastElem)"

text \<open>\<^verbatim>\<open>filepath.IsAbs\<close> on Unix: the path starts with a separator.\<close>

definition IsAbs :: "string \<Rightarrow> bool" where
  "IsAbs path = (case path of [] \<Rightarrow> False | c # _ \<Rightarrow> c = CHR ''/'')"

section \<open>Secure join\<close>

text \<open>
  What \<^verbatim>\<open>Lstat\<close> and \<^verbatim>\<open>Readlink\<close> report for a path of the local file system, on
  which \<^verbatim>\<open>SecureJoin\<close> looks for symbolic links.
\<close>

datatype fsNode =
    NotExist
  | NotSymlink
  | Symlink string
  | LstatFails string
  | ReadlinkFails string

type_synonym localFS = "string \<Rightarrow> fsNode"

datatype pathError = ELOOP | LstatError string | ReadlinkError string

text \<open>
  The loop of \<^verbatim>\<open>SecureJoinVFS\<close>. \<open>path\<close> is the buffer of elements already walked,
  \<open>n\<close> the number of links followed, \<open>unsafePath\<close> what is left to walk. Each round
  takes the next element \<open>p\<close> up to the first separator, cleans it against the buffer
  as a rooted path, and looks the result up under \<open>root\<close>: a link is expanded in front
  of the rest (an absolute one resets the buffer), anything else is appended to the
  buffer. More than 255 links is \<^verbatim>\<open>ELOOP\<close>. At the end the buffer is cleaned as a
  rooted path and appended to \<open>root\<close>.
\<close>

function secureJoinLoop :: "localFS \<Rightarrow> string \<Rightarrow> string \<Rightarrow> nat \<Rightarrow> string \<Rightarrow> pathError + string" where
  "secureJoinLoop fs root path n unsafePath =
     (if unsafePath = [] then Inr (clean (root @ clean (CHR ''/'' # path)))
      else if n > 255 then Inl ELOOP
      else
        let p = takeWhile notSep unsafePath;
            rest = (if list_all notSep unsafePath then [] else tl (dropWhile notSep unsafePath));
            cleanP = clean (CHR ''/'' # path @ p)
        in if cleanP = ''/'' then secureJoinLoop fs root [] n rest
           else
             (case fs (clean (root @ cleanP)) of
                LstatFails e \<Rightarrow> Inl (LstatError e)
              | NotExist \<Rightarrow> secureJoinLoop fs root (path @ p @ ''/'') n rest
              | NotSymlink \<Rightarrow> secureJoinLoop fs root (path @ p @ ''/'') n rest
              | ReadlinkFails e \<Rightarrow> Inl (ReadlinkError e)
              | Symlink dest \<Rightarrow>
                  secureJoinLoop fs root (if IsAbs dest then [] else path) (n + 1)
                    (dest @ ''/'' @ rest)))"
  by pat_completeness auto

termination secureJoinLoop
proof (relation "measures [\<lambda>(fs, root, path, n, unsafePath). 256 - n,
                          \<lambda>(fs, root, path, n, unsafePath). length unsafePath]",
       goal_cases)
  have shorter:
    "length (if list_all notSep u then [] else tl (dropWhile notSep u)) < length u"
    if "u \<noteq> []" for u :: string
  proof (cases "list_all notSep u")
    case True
    with that show ?thesis by simp
  next
    case False
    then have "dropWhile notSep u \<noteq> []"
      by (simp add: list_all_iff)
    then have "length (tl (dropWhile notSep u)) < length (dropWhile notSep u)"
      by (cases "dropWhile notSep u") simp_all
    moreover have "length (dropWhile notSep u) \<le> length u"
      by (rule length_dropWhile_le)
    ultimately show ?thesis using False by simp
  qed
  {
    case 1
    show ?case by simp
  next
    case (2 fs root path n unsafePath)
    then show ?case using shorter [of unsafePath] by simp
  next
    case (3 fs root path n unsafePath)
    then show ?case using shorter [of unsafePath] by simp
  next
    case (4 fs root path n unsafePath)
    then show ?case using shorter [of unsafePath] by simp
  next
    case (5 fs root path n unsafePath)
    then have "256 - (n + 1) < 256 - n" by arith
    then show ?case by simp
  }
qed

declare secureJoinLoop.simps [simp del]

definition SecureJoin :: "localFS \<Rightarrow> string \<Rightarrow> string \<Rightarrow> pathError + string" where
  "SecureJoin fs root unsafePath = secureJoinLoop fs root [] 0 unsafePath"

section \<open>The binding's data\<close>

record ftpMetadata =
  RootPath :: string
  Server :: string
  Port :: string
  User :: string
  Password :: string
  Directory :: string

text \<open>\<^verbatim>\<open>bindings.InvokeRequest\<close>: payload, per-request metadata and operation kind.\<close>

record InvokeRequest =
  Data :: string
  Metadata :: "string \<rightharpoonup> string"
  Operation :: string

text \<open>Indexing a Go map yields the empty string for a key that is not there.\<close>

definition metadataValue :: "InvokeRequest \<Rightarrow> string \<Rightarrow> string" where
  "metadataValue req key = (case Metadata req key of None \<Rightarrow> [] | Some val \<Rightarrow> val)"

text \<open>
  The values that the binding hands to \<^verbatim>\<open>json.Marshal\<close>, \<^verbatim>\<open>createResponse\<close> and
  \<^verbatim>\<open>listResponse\<close>, as trees of members: a struct as \<open>JObject\<close> with its JSON field
  names, a Go string as \<open>JString\<close> with its bytes as they are, a slice as \<open>JArray\<close> and
  the nil slice, which is marshalled as \<^verbatim>\<open>null\<close>, as \<open>JNull\<close>. The writing of the
  document from the value is left to \<^verbatim>\<open>json.Marshal\<close> and is not modelled: it escapes
  characters and writes U+FFFD for every byte of a string that is not valid UTF-8, so
  a tree shows the text of the document for strings that are valid UTF-8.
\<close>

datatype json = JNull | JString string | JArray "json list" | JObject "(string \<times> json) list"

text \<open>
  \<^verbatim>\<open>bindings.InvokeResponse\<close>, by what its \<^verbatim>\<open>Data\<close> holds: the document that
  \<^verbatim>\<open>json.Marshal\<close> writes for a value, raw bytes, or nothing.
\<close>

datatype InvokeResponse = JsonData json | RawData string | NoData

datatype EntryType = EntryTypeFile | EntryTypeFolder | EntryTypeLink

fun entryTypeString :: "EntryType \<Rightarrow> string" where
  "entryTypeString EntryTypeFile = ''file''"
| "entryTypeString EntryTypeFolder = ''folder''"
| "entryTypeString EntryTypeLink = ''link''"

record Entry =
  Name :: string
  Type :: EntryType

text \<open>
  One constructor for each \<^verbatim>\<open>fmt.Errorf\<close> of the binding, with the values it formats
  and the error it wraps.
\<close>

datatype bindingError =
    MergeMetadataError string
  | FilenameEmpty
  | SecurePathError string string pathError
  | SecureDirError string pathError
  | ConnectionError string string
  | LoginError string string
  | DirectoryCreateError string string
  | DirectoryChangeError string string
  | StoreError string
  | QuitError string
  | ListQuitError string string
  | DirectoryListError string string
  | RetrieveError string string
  | FileDeleteError string string
  | EncodeError string
  | UnsupportedOperation string

section \<open>The FTP server as the binding sees it\<close>

text \<open>
  The calls the binding makes on the FTP client library, in the order it makes them,
  are the observable behaviour of a handler. \<open>ReadAll\<close> and \<open>CloseStream\<close> are
  \<^verbatim>\<open>io.ReadAll(res)\<close> and \<^verbatim>\<open>res.Close()\<close> on the stream that \<^verbatim>\<open>Retr\<close> returns.
\<close>

datatype ftpCall =
    Dial string
  | Login string string
  | ChangeDir string
  | MakeDir string
  | Stor string string
  | Retr string
  | List string
  | Delete string
  | Quit
  | ReadAll
  | CloseStream

text \<open>
  A server answers a call depending on the calls made before it: \<open>answer\<close> is the
  error of the call (\<open>None\<close> for \<^verbatim>\<open>nil\<close>), \<open>entries\<close> what a successful \<^verbatim>\<open>List\<close>
  returns and \<open>content\<close> what a successful \<^verbatim>\<open>io.ReadAll\<close> returns.
\<close>

record ftpServer =
  answer :: "ftpCall list \<Rightarrow> ftpCall \<Rightarrow> string option"
  entries :: "ftpCall list \<Rightarrow> Entry list"
  content :: "ftpCall list \<Rightarrow> string"

type_synonym outcome = "(bindingError + InvokeResponse) \<times> ftpCall list"

section \<open>Configuration merge and path resolution\<close>

definition mergeWithRequestMetadata :: "ftpMetadata \<Rightarrow> InvokeRequest \<Rightarrow> string + ftpMetadata" where
  "mergeWithRequestMetadata metadata req =
     (let merged = metadata in
      case Metadata req ''Directory'' of
        Some val \<Rightarrow> if val \<noteq> [] then Inr (merged\<lparr>Directory := val\<rparr>) else Inr merged
      | None \<Rightarrow> Inr merged)"

definition getSecureDirAndFilename ::
  "localFS \<Rightarrow> string \<Rightarrow> string \<Rightarrow> pathError + (string \<times> string \<times> string)" where
  "getSecureDirAndFilename fs rootPath filename =
     (case SecureJoin fs ''.'' rootPath of
        Inl err \<Rightarrow> Inl err
      | Inr rootPath' \<Rightarrow>
          (case SecureJoin fs rootPath' filename of
             Inl err \<Rightarrow> Inl err
           | Inr absPath \<Rightarrow> Inr (absPath, Dir absPath, Base absPath)))"

definition getSecureDir :: "localFS \<Rightarrow> string \<Rightarrow> string \<Rightarrow> pathError + string" where
  "getSecureDir fs rootPath directory =
     (case SecureJoin fs ''.'' rootPath of
        Inl err \<Rightarrow> Inl err
      | Inr rootPath' \<Rightarrow> SecureJoin fs rootPath' directory)"

section \<open>The four handlers\<close>

text \<open>
  The idiom \<^verbatim>\<open>err = c.X(...); if err != nil { return nil, fmt.Errorf(...) }\<close>: the call
  is recorded, and the handler ends with the wrapped error when the call fails and goes
  on with \<open>cont\<close> otherwise.
\<close>

definition attempt ::
  "ftpServer \<Rightarrow> ftpCall list \<Rightarrow> ftpCall \<Rightarrow> (string \<Rightarrow> bindingError) \<Rightarrow>
   (ftpCall list \<Rightarrow> outcome) \<Rightarrow> outcome" where
  "attempt srv tr c wrap cont =
     (case answer srv tr c of
        Some err \<Rightarrow> (Inl (wrap err), tr @ [c])
      | None \<Rightarrow> cont (tr @ [c]))"

text \<open>\<^verbatim>\<open>defer res.Close()\<close>: the stream is closed when the handler returns, error ignored.\<close>

definition deferClose :: "outcome \<Rightarrow> outcome" where
  "deferClose out = (fst out, snd out @ [CloseStream])"

definition marshalCreateResponse :: "string \<Rightarrow> string + json" where
  "marshalCreateResponse fileName = Inr (JObject [(''fileName'', JString fileName)])"

definition fileInfoJson :: "Entry \<Rightarrow> json" where
  "fileInfoJson entry =
     JObject [(''filename'', JString (Name entry)),
              (''filetype'', JString (entryTypeString (Type entry)))]"

definition marshalListResponse :: "string \<Rightarrow> Entry list \<Rightarrow> string + json" where
  "marshalListResponse dir es =
     Inr (JObject [(''directory'', JString dir),
                   (''fileInfos'', if es = [] then JNull else JArray (map fileInfoJson es))])"

text \<open>The end of \<^verbatim>\<open>create\<close>, from \<^verbatim>\<open>c.Stor\<close> on, reached once the directory is entered.\<close>

definition createStore ::
  "ftpServer \<Rightarrow> ftpCall list \<Rightarrow> string \<Rightarrow> string \<Rightarrow> string \<Rightarrow> outcome" where
  "createStore srv tr absPath exactFilename r =
     attempt srv tr (Stor exactFilename r) StoreError (\<lambda>tr.
     attempt srv tr Quit QuitError (\<lambda>tr.
       (case marshalCreateResponse absPath of
          Inl err \<Rightarrow> (Inl (EncodeError err), tr)
        | Inr jsonResponse \<Rightarrow> (Inr (JsonData jsonResponse), tr))))"

definition create :: "ftpMetadata \<Rightarrow> localFS \<Rightarrow> ftpServer \<Rightarrow> InvokeRequest \<Rightarrow> outcome" where
  "create f fs srv req =
     (case mergeWithRequestMetadata f req of
        Inl err \<Rightarrow> (Inl (MergeMetadataError err), [])
      | Inr metadata \<Rightarrow>
          let r = Data req;
              filename = metadataValue req ''Filename''
          in if filename = [] then (Inl FilenameEmpty, [])
             else
               (case getSecureDirAndFilename fs (RootPath f) filename of
                  Inl err \<Rightarrow> (Inl (SecurePathError (RootPath f) filename err), [])
                | Inr (absPath, dir, exactFilename) \<Rightarrow>
                    attempt srv [] (Dial (Server metadata)) (ConnectionError (Server metadata)) (\<lambda>tr.
                    attempt srv tr (Login (User metadata) (Password metadata))
                      (LoginError (User metadata)) (\<lambda>tr.
                      (case answer srv tr (ChangeDir dir) of
                         None \<Rightarrow> createStore srv (tr @ [ChangeDir dir]) absPath exactFilename r
                       | Some _ \<Rightarrow>
                           attempt srv (tr @ [ChangeDir dir]) (MakeDir dir)
                             (DirectoryCreateError dir) (\<lambda>tr.
                           attempt srv tr (ChangeDir dir) (DirectoryChangeError dir) (\<lambda>tr.
                             createStore srv tr absPath exactFilename r)))))))"

definition list :: "ftpMetadata \<Rightarrow> localFS \<Rightarrow> ftpServer \<Rightarrow> InvokeRequest \<Rightarrow> outcome" where
  "list f fs srv req =
     (case mergeWithRequestMetadata f req of
        Inl err \<Rightarrow> (Inl (MergeMetadataError err), [])
      | Inr metadata \<Rightarrow>
          attempt srv [] (Dial (Server metadata)) (ConnectionError (Server metadata)) (\<lambda>tr.
          attempt srv tr (Login (User metadata) (Password metadata))
            (LoginError (User metadata)) (\<lambda>tr.
            let directory = Directory metadata in
            (case getSecureDir fs (RootPath metadata) directory of
               Inl err \<Rightarrow> (Inl (SecureDirError directory err), tr)
             | Inr dir \<Rightarrow>
                 let es = entries srv tr in
                 attempt srv tr (List dir) (DirectoryListError dir) (\<lambda>tr.
                 attempt srv tr Quit (ListQuitError dir) (\<lambda>tr.
                   (case marshalListResponse dir es of
                      Inl err \<Rightarrow> (Inl (EncodeError err), tr)
                    | Inr jsonResponse \<Rightarrow> (Inr (JsonData jsonResponse), tr))))))))"

definition get :: "ftpMetadata \<Rightarrow> localFS \<Rightarrow> ftpServer \<Rightarrow> InvokeRequest \<Rightarrow> outcome" where
  "get f fs srv req =
     (case mergeWithRequestMetadata f req of
        Inl err \<Rightarrow> (Inl (MergeMetadataError err), [])
      | Inr metadata \<Rightarrow>
          let filename = metadataValue req ''Filename''
          in if filename = [] then (Inl FilenameEmpty, [])
             else
               (case getSecureDirAndFilename fs (RootPath f) filename of
                  Inl err \<Rightarrow> (Inl (SecurePathError (RootPath f) filename err), [])
                | Inr (absPath, dir, exactFilename) \<Rightarrow>
                    attempt srv [] (Dial (Server metadata)) (ConnectionError (Server metadata)) (\<lambda>tr.
                    attempt srv tr (Login (User metadata) (Password metadata))
                      (LoginError (User metadata)) (\<lambda>tr.
                    attempt srv tr (ChangeDir dir) (DirectoryChangeError dir) (\<lambda>tr.
                    attempt srv tr (Retr exactFilename) (RetrieveError filename) (\<lambda>tr.
                      deferClose
                        (attempt srv tr Quit QuitError (\<lambda>tr.
                         let buf = content srv tr in
                         attempt srv tr ReadAll (RetrieveError filename) (\<lambda>tr.
                           (Inr (RawData buf), tr))))))))))"

definition delete :: "ftpMetadata \<Rightarrow> localFS \<Rightarrow> ftpServer \<Rightarrow> InvokeRequest \<Rightarrow> outcome" where
  "delete f fs srv req =
     (case mergeWithRequestMetadata f req of
        Inl err \<Rightarrow> (Inl (MergeMetadataError err), [])
      | Inr metadata \<Rightarrow>
          let filename = metadataValue req ''Filename''
          in if filename = [] then (Inl FilenameEmpty, [])
             else
               (case getSecureDirAndFilename fs (RootPath f) filename of
                  Inl err \<Rightarrow> (Inl (SecurePathError (RootPath f) filename err), [])
                | Inr (absPath, dir, exactFilename) \<Rightarrow>
                    attempt srv [] (Dial (Server metadata)) (ConnectionError (Server metadata)) (\<lambda>tr.
                    attempt srv tr (Login (User metadata) (Password metadata))
                      (LoginError (User metadata)) (\<lambda>tr.
                    attempt srv tr (ChangeDir dir) (DirectoryChangeError dir) (\<lambda>tr.
                    attempt srv tr (Delete exactFilename) (FileDeleteError exactFilename) (\<lambda>tr.
                    attempt srv tr Quit QuitError (\<lambda>tr.
                      (Inr NoData, tr))))))))"

definition Invoke :: "ftpMetadata \<Rightarrow> localFS \<Rightarrow> ftpServer \<Rightarrow> InvokeRequest \<Rightarrow> outcome" where
  "Invoke f fs srv req =
     (if Operation req = ''create'' then create f fs srv req
      else if Operation req = ''list'' then list f fs srv req
      else if Operation req = ''get'' then get f fs srv req
      else if Operation req = ''delete'' then delete f fs srv req
      else (Inl (UnsupportedOperation (Operation req)), []))"

section \<open>Notions used to state the properties\<close>

text \<open>
  An ordinary path element: not empty, not \<^verbatim>\<open>.\<close>, not \<^verbatim>\<open>..\<close>, and free of separators.
  \<open>render\<close> writes a sequence of elements as a relative path, \<^verbatim>\<open>.\<close> for none.
\<close>

definition ordinary :: "string \<Rightarrow> bool" where
  "ordinary e = (e \<noteq> [] \<and> e \<noteq> ''.'' \<and> e \<noteq> ''..'' \<and> CHR ''/'' \<notin> set e)"

definition render :: "string list \<Rightarrow> string" where
  "render es = (if es = [] then ''.'' else joinPath es)"

text \<open>String-prefix containment: \<open>p\<close> is \<open>root\<close> itself or starts with \<open>root\<close> and a separator.\<close>

definition hasPathPrefix :: "string \<Rightarrow> string \<Rightarrow> bool" where
  "hasPathPrefix root p = (p = root \<or> take (length root + 1) p = root @ ''/'')"

text \<open>
  A plain answer of the local file system to a lookup: the path does not exist, or it
  is something other than a symbolic link. The lookup neither fails nor finds a link.
\<close>

definition plain :: "fsNode \<Rightarrow> bool" where
  "plain node = (node = NotExist \<or> node = NotSymlink)"

text \<open>
  The paths that the loop of \<^verbatim>\<open>SecureJoinVFS\<close> looks up, in order, as long as every
  answer is plain: the same walk as \<open>secureJoinLoop\<close>, recording the argument of each
  \<^verbatim>\<open>Lstat\<close>.
\<close>

function lookups :: "string \<Rightarrow> string \<Rightarrow> string \<Rightarrow> string list" where
  "lookups root path unsafePath =
     (if unsafePath = [] then []
      else
        let p = takeWhile notSep unsafePath;
            rest = (if list_all notSep unsafePath then [] else tl (dropWhile notSep unsafePath));
            cleanP = clean (CHR ''/'' # path @ p)
        in if cleanP = ''/'' then lookups root [] rest
           else clean (root @ cleanP) # lookups root (path @ p @ ''/'') rest)"
  by pat_completeness auto

termination lookups
proof (relation "measure (\<lambda>(root, path, unsafePath). length unsafePath)", goal_cases)
  have shorter:
    "length (if list_all notSep u then [] else tl (dropWhile notSep u)) < length u"
    if "u \<noteq> []" for u :: string
  proof (cases "list_all notSep u")
    case True
    with that show ?thesis by simp
  next
    case False
    then have "dropWhile notSep u \<noteq> []"
      by (simp add: list_all_iff)
    then have "length (tl (dropWhile notSep u)) < length (dropWhile notSep u)"
      by (cases "dropWhile notSep u") simp_all
    moreover have "length (dropWhile notSep u) \<le> length u"
      by (rule length_dropWhile_le)
    ultimately show ?thesis using False by simp
  qed
  {
    case 1
    show ?case by simp
  next
    case (2 root path unsafePath)
    then show ?case using shorter [of unsafePath] by simp
  next
    case (3 root path unsafePath)
    then show ?case using shorter [of unsafePath] by simp
  }
qed

declare lookups.simps [simp del]

text \<open>
  The paths that \<open>getSecureDir\<close> and \<open>getSecureDirAndFilename\<close> look up for a root and
  an untrusted name while every answer is plain: those of the join of the root to
  \<^verbatim>\<open>.\<close>, then those of the join of the name to the root so normalised.
\<close>

definition resolverLookups :: "string \<Rightarrow> string \<Rightarrow> string list" where
  "resolverLookups rootPath untrusted =
     lookups ''.'' [] rootPath @
     (case SecureJoin (\<lambda>q. NotExist) ''.'' rootPath of
        Inl err \<Rightarrow> []
      | Inr rootPath' \<Rightarrow> lookups rootPath' [] untrusted)"

text \<open>The file action of a handler is its \<^verbatim>\<open>Stor\<close>, \<^verbatim>\<open>List\<close>, \<^verbatim>\<open>Retr\<close> or \<^verbatim>\<open>Delete\<close> call.\<close>

fun isAction :: "ftpCall \<Rightarrow> bool" where
  "isAction (Stor _ _) = True"
| "isAction (Retr _) = True"
| "isAction (List _) = True"
| "isAction (Delete _) = True"
| "isAction _ = False"

text \<open>
  Some file action among the calls \<open>cs\<close>, made after the calls \<open>before\<close>, was answered
  without error.
\<close>

fun actionSucceeded :: "ftpServer \<Rightarrow> ftpCall list \<Rightarrow> ftpCall list \<Rightarrow> bool" where
  "actionSucceeded srv before [] = False"
| "actionSucceeded srv before (c # cs) =
     ((isAction c \<and> answer srv before c = None) \<or> actionSucceeded srv (before @ [c]) cs)"

fun isDirCall :: "ftpCall \<Rightarrow> bool" where
  "isDirCall (ChangeDir _) = True"
| "isDirCall (MakeDir _) = True"
| "isDirCall _ = False"

text \<open>Call \<open>a\<close> occurs in the trace before the first occurrence of call \<open>b\<close>.\<close>

definition issuedBefore :: "ftpCall \<Rightarrow> ftpCall \<Rightarrow> ftpCall list \<Rightarrow> bool" where
  "issuedBefore a b tr = (a \<in> set (takeWhile (\<lambda>c. c \<noteq> b) tr))"

section \<open>Sample configuration, requests and servers\<close>

definition noLinks :: localFS where
  "noLinks = (\<lambda>p. NotExist)"

text \<open>
  A local file system on which the directories of the root are in place, nothing exists
  below them yet, and every other lookup fails.
\<close>

definition sampleFS :: localFS where
  "sampleFS =
     (\<lambda>q. if q \<in> set [''srv'', ''srv/ftp'', ''srv/ftp/data''] then NotSymlink
          else if q \<in> set [''srv/ftp/data/reports'', ''srv/ftp/data/reports/out.txt'',
                            ''srv/ftp/data/etc'', ''srv/ftp/data/etc/passwd''] then NotExist
          else LstatFails ''permission denied'')"

definition unreadableFS :: localFS where
  "unreadableFS = (\<lambda>p. LstatFails ''permission denied'')"

definition sampleConfig :: ftpMetadata where
  "sampleConfig =
     \<lparr>RootPath = ''/srv/ftp/data'', Server = ''ftp.example:21'', Port = ''21'',
      User = ''u'', Password = ''p'', Directory = ''inbox''\<rparr>"

definition request :: "string \<Rightarrow> (string \<times> string) list \<Rightarrow> InvokeRequest" where
  "request op kvs = \<lparr>Data = ''hello'', Metadata = map_of kvs, Operation = op\<rparr>"

text \<open>A request for the file \<^verbatim>\<open>reports/out.txt\<close>, named under the key \<^verbatim>\<open>Filename\<close>.\<close>

definition reportRequest :: "string \<Rightarrow> InvokeRequest" where
  "reportRequest op = request op [(''Filename'', ''reports/out.txt'')]"

text \<open>A server that rejects exactly the calls in \<open>failing\<close>.\<close>

definition serverFailing :: "ftpCall list \<Rightarrow> ftpServer" where
  "serverFailing failing =
     \<lparr>answer = (\<lambda>tr c. if c \<in> set failing then Some ''550'' else None),
      entries = (\<lambda>tr. [\<lparr>Name = ''out.txt'', Type = EntryTypeFile\<rparr>]),
      content = (\<lambda>tr. ''hello'')\<rparr>"

text \<open>A server on which a directory can be entered only after it has been made.\<close>

definition freshServer :: ftpServer where
  "freshServer =
     \<lparr>answer = (\<lambda>tr c. case c of
                   ChangeDir d \<Rightarrow> if MakeDir d \<in> set tr then None else Some ''550''
                 | _ \<Rightarrow> None),
      entries = (\<lambda>tr. []),
      content = (\<lambda>tr. [])\<rparr>"


section \<open>Facts about the path operations\<close>

lemma splitPath_nonempty: "splitPath s \<noteq> []"
  by (induction s) (auto split: list.split)

lemma splitPath_append: "splitPath (a @ CHR ''/'' # b) = splitPath a @ splitPath b"
proof (induction a)
  case Nil
  show ?case by simp
next
  case (Cons c a)
  then show ?case
    using splitPath_nonempty [of a] by (cases "splitPath a") auto
qed

lemma splitPath_single: "CHR ''/'' \<notin> set e \<Longrightarrow> splitPath e = [e]"
  by (induction e) auto

lemma splitPath_joinPath:
  "es \<noteq> [] \<Longrightarrow> \<forall>e\<in>set es. CHR ''/'' \<notin> set e \<Longrightarrow> splitPath (joinPath es) = es"
proof (induction es rule: joinPath.induct)
  case 1
  then show ?case by simp
next
  case (2 c)
  then show ?case by (simp add: splitPath_single)
next
  case (3 c d cs)
  then show ?case by (simp add: splitPath_append splitPath_single)
qed

lemma splitPath_no_sep: "e \<in> set (splitPath s) \<Longrightarrow> CHR ''/'' \<notin> set e"
proof (induction s arbitrary: e)
  case Nil
  then show ?case by simp
next
  case (Cons c s)
  then show ?case
    using splitPath_nonempty [of s]
    by (cases "splitPath s") (auto split: if_splits)
qed

lemma cleanStep_ordinary: "ordinary e \<Longrightarrow> cleanStep rooted out e = e # out"
  by (simp add: cleanStep_def ordinary_def)

lemma foldl_cleanStep_ordinary:
  "\<forall>e\<in>set es. ordinary e \<Longrightarrow> foldl (cleanStep rooted) out es = rev es @ out"
  by (induction es arbitrary: out) (simp_all add: cleanStep_ordinary)

lemma cleanStep_rooted_keeps:
  assumes "\<forall>x\<in>set out. ordinary x" and "CHR ''/'' \<notin> set e"
  shows "\<forall>x\<in>set (cleanStep True out e). ordinary x"
proof (cases out)
  case Nil
  with assms show ?thesis by (simp add: cleanStep_def ordinary_def)
next
  case (Cons t ts)
  with assms show ?thesis by (simp add: cleanStep_def ordinary_def)
qed

lemma foldl_cleanStep_rooted_keeps:
  "\<forall>x\<in>set out. ordinary x \<Longrightarrow> \<forall>e\<in>set es. CHR ''/'' \<notin> set e \<Longrightarrow>
   \<forall>x\<in>set (foldl (cleanStep True) out es). ordinary x"
proof (induction es arbitrary: out)
  case Nil
  then show ?case by simp
next
  case (Cons e es)
  have "\<forall>x\<in>set (cleanStep True out e). ordinary x"
    using Cons.prems by (intro cleanStep_rooted_keeps) simp_all
  with Cons show ?case by simp
qed

lemma clean_rooted:
  "\<exists>ds. (\<forall>e\<in>set ds. ordinary e) \<and> clean (CHR ''/'' # s) = CHR ''/'' # joinPath ds"
proof -
  let ?out = "rev (foldl (cleanStep True) [] (splitPath (CHR ''/'' # s)))"
  have "\<forall>x\<in>set (foldl (cleanStep True) [] (splitPath (CHR ''/'' # s))). ordinary x"
    by (intro foldl_cleanStep_rooted_keeps) (auto dest: splitPath_no_sep simp del: splitPath.simps)
  then have "\<forall>e\<in>set ?out. ordinary e" by simp
  moreover have "clean (CHR ''/'' # s) = CHR ''/'' # joinPath ?out"
    by (simp add: clean_def Let_def del: splitPath.simps)
  ultimately show ?thesis by blast
qed

lemma joinPath_nonempty: "es \<noteq> [] \<Longrightarrow> \<forall>e\<in>set es. ordinary e \<Longrightarrow> joinPath es \<noteq> [] \<and> hd (joinPath es) \<noteq> CHR ''/''"
proof (induction es rule: joinPath.induct)
  case 1
  then show ?case by simp
next
  case (2 c)
  then show ?case by (cases c) (auto simp: ordinary_def)
next
  case (3 c d cs)
  then show ?case by (cases c) (auto simp: ordinary_def)
qed

lemma clean_unrooted:
  assumes "path \<noteq> []" and "hd path \<noteq> CHR ''/''"
    and "foldl (cleanStep False) [] (splitPath path) = rev out"
  shows "clean path = render out"
  using assms by (simp add: clean_def render_def Let_def del: splitPath.simps)

lemma clean_render_append:
  assumes rs: "\<forall>e\<in>set rs. ordinary e" and ds: "\<forall>e\<in>set ds. ordinary e"
  shows "clean (render rs @ CHR ''/'' # joinPath ds) = render (rs @ ds)"
proof -
  let ?tail = "if ds = [] then [[]] else ds"
  have tail: "splitPath (joinPath ds) = ?tail"
    using ds by (auto simp: splitPath_joinPath ordinary_def)
  have fold_tail: "foldl (cleanStep False) out ?tail = rev ds @ out" for out
    using ds by (auto simp: foldl_cleanStep_ordinary cleanStep_def)
  show ?thesis
  proof (cases "rs = []")
    case True
    have sp: "splitPath (''.'' @ CHR ''/'' # joinPath ds) = ''.'' # ?tail"
      unfolding splitPath_append tail by simp
    have dot: "cleanStep False [] ''.'' = []" by (simp add: cleanStep_def)
    have "foldl (cleanStep False) [] (splitPath (''.'' @ CHR ''/'' # joinPath ds)) = rev ds"
      unfolding sp foldl_Cons dot fold_tail by simp
    then have "clean (''.'' @ CHR ''/'' # joinPath ds) = render ds"
      by (intro clean_unrooted) simp_all
    with True show ?thesis by (simp add: render_def)
  next
    case False
    from False rs have hd: "joinPath rs \<noteq> []" "hd (joinPath rs) \<noteq> CHR ''/''"
      using joinPath_nonempty by blast+
    have "splitPath (joinPath rs) = rs"
      using False rs by (auto simp: splitPath_joinPath ordinary_def)
    then have sp: "splitPath (joinPath rs @ CHR ''/'' # joinPath ds) = rs @ ?tail"
      unfolding splitPath_append tail by simp
    have "foldl (cleanStep False) [] (splitPath (joinPath rs @ CHR ''/'' # joinPath ds))
            = rev (rs @ ds)"
      unfolding sp foldl_append fold_tail using rs by (simp add: foldl_cleanStep_ordinary)
    then have "clean (joinPath rs @ CHR ''/'' # joinPath ds) = render (rs @ ds)"
      using hd by (intro clean_unrooted) simp_all
    with False show ?thesis by (simp add: render_def)
  qed
qed


lemma secureJoinLoop_shape:
  "secureJoinLoop fs root path n unsafePath = Inr p \<Longrightarrow>
   \<exists>buf. p = clean (root @ clean (CHR ''/'' # buf))"
proof (induction fs root path n unsafePath rule: secureJoinLoop.induct)
  case (1 fs root path n unsafePath)
  define e where "e = takeWhile notSep unsafePath"
  define rest where
    "rest = (if list_all notSep unsafePath then [] else tl (dropWhile notSep unsafePath))"
  define cleanP where "cleanP = clean (CHR ''/'' # path @ e)"
  have unfold:
    "secureJoinLoop fs root path n unsafePath =
       (if cleanP = ''/'' then secureJoinLoop fs root [] n rest
        else
          (case fs (clean (root @ cleanP)) of
             LstatFails x \<Rightarrow> Inl (LstatError x)
           | NotExist \<Rightarrow> secureJoinLoop fs root (path @ e @ ''/'') n rest
           | NotSymlink \<Rightarrow> secureJoinLoop fs root (path @ e @ ''/'') n rest
           | ReadlinkFails x \<Rightarrow> Inl (ReadlinkError x)
           | Symlink dest \<Rightarrow>
               secureJoinLoop fs root (if IsAbs dest then [] else path) (n + 1)
                 (dest @ ''/'' @ rest)))"
    if "unsafePath \<noteq> []" and "\<not> 255 < n"
    using that unfolding e_def rest_def cleanP_def
    by (subst secureJoinLoop.simps) (simp add: Let_def)
  show ?case
  proof (cases "unsafePath = []")
    case True
    with "1.prems" have "p = clean (root @ clean (CHR ''/'' # path))"
      by (simp add: secureJoinLoop.simps [of fs root path n "[]"])
    then show ?thesis by blast
  next
    case False
    show ?thesis
    proof (cases "255 < n")
      case True
      with False "1.prems" show ?thesis
        by (simp add: secureJoinLoop.simps [of fs root path n unsafePath])
    next
      case small: False
      show ?thesis
      proof (cases "cleanP = ''/''")
        case True
        with "1.prems" have "secureJoinLoop fs root [] n rest = Inr p"
          by (simp add: unfold [OF False small])
        with "1.IH"(1) [OF False small e_def rest_def cleanP_def True] show ?thesis .
      next
        case other: False
        show ?thesis
        proof (cases "fs (clean (root @ cleanP))")
          case NotExist
          with other "1.prems"
          have "secureJoinLoop fs root (path @ e @ ''/'') n rest = Inr p"
            by (simp add: unfold [OF False small])
          with "1.IH"(2) [OF False small e_def rest_def cleanP_def other NotExist]
          show ?thesis .
        next
          case NotSymlink
          with other "1.prems"
          have "secureJoinLoop fs root (path @ e @ ''/'') n rest = Inr p"
            by (simp add: unfold [OF False small])
          with "1.IH"(3) [OF False small e_def rest_def cleanP_def other NotSymlink]
          show ?thesis .
        next
          case (Symlink dest)
          with other "1.prems"
          have "secureJoinLoop fs root (if IsAbs dest then [] else path) (n + 1)
                  (dest @ ''/'' @ rest) = Inr p"
            by (simp add: unfold [OF False small])
          with "1.IH"(4) [OF False small e_def rest_def cleanP_def other Symlink]
          show ?thesis .
        next
          case (LstatFails x)
          with other "1.prems" show ?thesis
            by (simp add: unfold [OF False small])
        next
          case (ReadlinkFails x)
          with other "1.prems" show ?thesis
            by (simp add: unfold [OF False small])
        qed
      qed
    qed
  qed
qed


lemma secureJoinLoop_plain:
  "\<forall>q\<in>set (lookups root path unsafePath). plain (fs q) \<Longrightarrow> n \<le> 255 \<Longrightarrow>
   secureJoinLoop fs root path n unsafePath = secureJoinLoop noLinks root path n unsafePath
   \<and> (\<exists>p. secureJoinLoop fs root path n unsafePath = Inr p)"
proof (induction fs root path n unsafePath rule: secureJoinLoop.induct)
  case (1 fs root path n unsafePath)
  define e where "e = takeWhile notSep unsafePath"
  define rest where
    "rest = (if list_all notSep unsafePath then [] else tl (dropWhile notSep unsafePath))"
  define cleanP where "cleanP = clean (CHR ''/'' # path @ e)"
  from "1.prems" have small: "\<not> 255 < n" by simp
  show ?case
  proof (cases "unsafePath = []")
    case True
    then show ?thesis
      by (simp add: secureJoinLoop.simps [of _ root path n "[]"])
  next
    case False
    have looked: "lookups root path unsafePath =
       (if cleanP = ''/'' then lookups root [] rest
        else clean (root @ cleanP) # lookups root (path @ e @ ''/'') rest)"
      using False unfolding e_def rest_def cleanP_def
      by (subst lookups.simps) (simp add: Let_def)
    have there: "secureJoinLoop noLinks root path n unsafePath =
       (if cleanP = ''/'' then secureJoinLoop noLinks root [] n rest
        else secureJoinLoop noLinks root (path @ e @ ''/'') n rest)"
      using False small unfolding e_def rest_def cleanP_def
      by (subst secureJoinLoop.simps) (simp add: Let_def noLinks_def)
    show ?thesis
    proof (cases "cleanP = ''/''")
      case True
      from "1.prems"(1) have below: "\<forall>q\<in>set (lookups root [] rest). plain (fs q)"
        by (simp add: looked True)
      note IH = "1.IH"(1) [OF False small e_def rest_def cleanP_def True below "1.prems"(2)]
      from IH have eq: "secureJoinLoop fs root [] n rest = secureJoinLoop noLinks root [] n rest"
        by (rule conjunct1)
      from IH obtain p where ex: "secureJoinLoop fs root [] n rest = Inr p"
        by (elim conjE exE)
      have h: "secureJoinLoop fs root path n unsafePath = secureJoinLoop fs root [] n rest"
        using False small True unfolding e_def rest_def cleanP_def
        by (subst secureJoinLoop.simps) (simp add: Let_def)
      have t: "secureJoinLoop noLinks root path n unsafePath = secureJoinLoop noLinks root [] n rest"
        by (simp add: there True)
      have "secureJoinLoop fs root path n unsafePath = secureJoinLoop noLinks root path n unsafePath"
        by (simp only: h t eq)
      moreover have "\<exists>p. secureJoinLoop fs root path n unsafePath = Inr p"
        unfolding h using ex by (rule exI)
      ultimately show ?thesis by (rule conjI)
    next
      case other: False
      from "1.prems"(1) have node: "plain (fs (clean (root @ cleanP)))"
        and below: "\<forall>q\<in>set (lookups root (path @ e @ ''/'') rest). plain (fs q)"
        by (simp_all add: looked other)
      from node have cases: "fs (clean (root @ cleanP)) = NotExist
          \<or> fs (clean (root @ cleanP)) = NotSymlink"
        by (simp add: plain_def)
      then have IH: "secureJoinLoop fs root (path @ e @ ''/'') n rest =
           secureJoinLoop noLinks root (path @ e @ ''/'') n rest
         \<and> (\<exists>p. secureJoinLoop fs root (path @ e @ ''/'') n rest = Inr p)"
        using "1.IH"(2) [OF False small e_def rest_def cleanP_def other _ below "1.prems"(2)]
              "1.IH"(3) [OF False small e_def rest_def cleanP_def other _ below "1.prems"(2)]
        by blast
      from IH have eq: "secureJoinLoop fs root (path @ e @ ''/'') n rest =
           secureJoinLoop noLinks root (path @ e @ ''/'') n rest"
        by (rule conjunct1)
      from IH obtain p where ex: "secureJoinLoop fs root (path @ e @ ''/'') n rest = Inr p"
        by (elim conjE exE)
      have h: "secureJoinLoop fs root path n unsafePath =
                 secureJoinLoop fs root (path @ e @ ''/'') n rest"
        using cases False small other unfolding e_def rest_def cleanP_def
        by (subst secureJoinLoop.simps) (auto simp add: Let_def)
      have t: "secureJoinLoop noLinks root path n unsafePath =
                 secureJoinLoop noLinks root (path @ e @ ''/'') n rest"
        by (simp add: there other)
      have "secureJoinLoop fs root path n unsafePath = secureJoinLoop noLinks root path n unsafePath"
        by (simp only: h t eq)
      moreover have "\<exists>p. secureJoinLoop fs root path n unsafePath = Inr p"
        unfolding h using ex by (rule exI)
      ultimately show ?thesis by (rule conjI)
    qed
  qed
qed

lemma SecureJoin_dot:
  assumes "SecureJoin fs ''.'' root = Inr r"
  shows "\<exists>rs. (\<forall>e\<in>set rs. ordinary e) \<and> r = render rs"
proof -
  from assms obtain buf where "r = clean (''.'' @ clean (CHR ''/'' # buf))"
    unfolding SecureJoin_def by (blast dest: secureJoinLoop_shape)
  moreover obtain ds where ds: "\<forall>e\<in>set ds. ordinary e"
      and "clean (CHR ''/'' # buf) = CHR ''/'' # joinPath ds"
    using clean_rooted by blast
  ultimately have "r = clean (render [] @ CHR ''/'' # joinPath ds)"
    by (simp add: render_def)
  also have "\<dots> = render ([] @ ds)"
    by (rule clean_render_append) (simp_all add: ds)
  finally show ?thesis using ds by auto
qed

lemma SecureJoin_under:
  assumes rs: "\<forall>e\<in>set rs. ordinary e" and "SecureJoin fs (render rs) untrusted = Inr p"
  shows "\<exists>ds. (\<forall>e\<in>set ds. ordinary e) \<and> p = render (rs @ ds)"
proof -
  from assms obtain buf where "p = clean (render rs @ clean (CHR ''/'' # buf))"
    unfolding SecureJoin_def by (blast dest: secureJoinLoop_shape)
  moreover obtain ds where ds: "\<forall>e\<in>set ds. ordinary e"
      and "clean (CHR ''/'' # buf) = CHR ''/'' # joinPath ds"
    using clean_rooted by blast
  ultimately have "p = clean (render rs @ CHR ''/'' # joinPath ds)" by simp
  also have "\<dots> = render (rs @ ds)"
    by (rule clean_render_append) (simp_all add: rs ds)
  finally show ?thesis using ds by auto
qed

lemma SecureJoin_plain:
  assumes "\<forall>q\<in>set (lookups root [] untrusted). plain (fs q)"
  shows "SecureJoin fs root untrusted = SecureJoin noLinks root untrusted"
    and "\<exists>p. SecureJoin fs root untrusted = Inr p"
proof -
  have "(0::nat) \<le> 255" by simp
  note both = secureJoinLoop_plain [OF assms this]
  from both [THEN conjunct1]
  show "SecureJoin fs root untrusted = SecureJoin noLinks root untrusted"
    by (simp only: SecureJoin_def)
  from both [THEN conjunct2]
  show "\<exists>p. SecureJoin fs root untrusted = Inr p"
    by (simp only: SecureJoin_def)
qed

lemma noLinks_plain: "plain (noLinks q)"
  by (simp add: plain_def noLinks_def)

lemma resolvers_plain:
  assumes "\<forall>q\<in>set (resolverLookups rootPath untrusted). plain (fs q)"
  shows "getSecureDir fs rootPath untrusted = getSecureDir noLinks rootPath untrusted"
    and "getSecureDirAndFilename fs rootPath untrusted
           = getSecureDirAndFilename noLinks rootPath untrusted"
    and "\<exists>p. getSecureDir fs rootPath untrusted = Inr p"
    and "\<exists>p. getSecureDirAndFilename fs rootPath untrusted = Inr (p, Dir p, Base p)"
proof -
  obtain r where r: "SecureJoin noLinks ''.'' rootPath = Inr r"
    using SecureJoin_plain(2) [of "''.''" rootPath noLinks] noLinks_plain by blast
  then have r': "SecureJoin (\<lambda>q. NotExist) ''.'' rootPath = Inr r"
    by (simp add: noLinks_def)
  from assms have first: "\<forall>q\<in>set (lookups ''.'' [] rootPath). plain (fs q)"
    and second: "\<forall>q\<in>set (lookups r [] untrusted). plain (fs q)"
    by (simp_all add: resolverLookups_def r')
  have root: "SecureJoin fs ''.'' rootPath = Inr r"
    using SecureJoin_plain(1) [OF first] r by simp
  have name: "SecureJoin fs r untrusted = SecureJoin noLinks r untrusted"
    by (rule SecureJoin_plain(1) [OF second])
  obtain p where p: "SecureJoin fs r untrusted = Inr p"
    using SecureJoin_plain(2) [OF second] by blast
  show "getSecureDir fs rootPath untrusted = getSecureDir noLinks rootPath untrusted"
    by (simp add: getSecureDir_def root r name)
  show "getSecureDirAndFilename fs rootPath untrusted
           = getSecureDirAndFilename noLinks rootPath untrusted"
    by (simp add: getSecureDirAndFilename_def root r name)
  show "\<exists>p. getSecureDir fs rootPath untrusted = Inr p"
    by (simp add: getSecureDir_def root p)
  show "\<exists>p. getSecureDirAndFilename fs rootPath untrusted = Inr (p, Dir p, Base p)"
    by (simp add: getSecureDirAndFilename_def root p)
qed

lemma resolved_under:
  assumes "SecureJoin fs ''.'' rootPath = Inr r" and "SecureJoin fs r untrusted = Inr p"
  shows "\<exists>rs ds. (\<forall>e\<in>set (rs @ ds). ordinary e)
           \<and> SecureJoin fs ''.'' rootPath = Inr (render rs) \<and> p = render (rs @ ds)"
proof -
  from assms(1) obtain rs where rs: "\<forall>e\<in>set rs. ordinary e" and r: "r = render rs"
    using SecureJoin_dot by blast
  from assms(2) obtain ds where ds: "\<forall>e\<in>set ds. ordinary e" and p: "p = render (rs @ ds)"
    unfolding r using SecureJoin_under [OF rs] by blast
  from rs ds have "\<forall>e\<in>set (rs @ ds). ordinary e" by auto
  with assms(1) r p show ?thesis by blast
qed

lemma joinPath_snoc:
  "joinPath (xs @ [e]) = (if xs = [] then e else joinPath xs @ CHR ''/'' # e)"
  by (induction xs rule: joinPath.induct) simp_all

lemma Dir_Base_below:
  assumes xs: "\<forall>x\<in>set xs. ordinary x" and e: "ordinary e"
  shows "Dir (render (xs @ [e])) = render xs" and "Base (render (xs @ [e])) = e"
proof -
  from e have ne: "e \<noteq> []" and ns: "\<forall>c\<in>set e. notSep c"
    by (auto simp add: ordinary_def notSep_def)
  then have ns': "\<forall>c\<in>set (rev e). notSep c" by simp
  have r: "render (xs @ [e]) = joinPath (xs @ [e])" by (simp add: render_def)
  have lastc: "last e \<noteq> CHR ''/''"
    using ne ns by (metis last_in_set notSep_def)
  show "Dir (render (xs @ [e])) = render xs"
  proof (cases "xs = []")
    case True
    have "dropWhile notSep (rev e) = []" using ns' by simp
    then show ?thesis using True by (simp add: Dir_def render_def clean_def)
  next
    case False
    have "dropWhile notSep (rev e @ CHR ''/'' # rev (joinPath xs)) = CHR ''/'' # rev (joinPath xs)"
      using ns' by (simp add: dropWhile_append3 notSep_def)
    then have "Dir (render (xs @ [e])) = clean (joinPath xs @ ''/'')"
      using False by (simp add: Dir_def r joinPath_snoc)
    also have "\<dots> = clean (render xs @ CHR ''/'' # joinPath [])"
      using False by (simp add: render_def)
    also have "\<dots> = render (xs @ [])"
      by (rule clean_render_append) (simp_all add: xs)
    finally show ?thesis by simp
  qed
  have tw0: "takeWhile notSep (rev e) = rev e"
    using ns' by simp
  have tw1: "takeWhile notSep (rev e @ CHR ''/'' # rest) = rev e" for rest
    using ns' by (simp add: takeWhile_tail notSep_def)
  have "hd (rev e) \<noteq> CHR ''/''"
    using ne lastc by (simp add: hd_rev)
  then have strip: "dropWhile (\<lambda>c. c = CHR ''/'') (rev e @ rest) = rev e @ rest" for rest
    using ne by (cases "rev e") simp_all
  show "Base (render (xs @ [e])) = e"
  proof (cases "xs = []")
    case True
    have "Base e = e"
      using ne strip [of "[]"] by (simp add: Base_def Let_def tw0)
    with True show ?thesis by (simp add: render_def)
  next
    case False
    have "Base (joinPath xs @ CHR ''/'' # e) = e"
      using ne by (simp add: Base_def Let_def strip tw1)
    with False show ?thesis by (simp add: r joinPath_snoc)
  qed
qed

section \<open>Path resolution stays under the normalised root\<close>

text \<open>
  Claim C1, as the code has it. Both resolvers first replace the configured root by
  \<^verbatim>\<open>SecureJoin(".", rootPath)\<close>, a relative path of ordinary elements (an absolute
  root loses its leading separator, \<^verbatim>\<open>..\<close> elements are resolved away), and then join
  the untrusted name to that. Whenever \<open>getSecureDir\<close> or \<open>getSecureDirAndFilename\<close>
  returns a path, for any root, any untrusted string and any state of the local file
  system, the path consists of the elements of the normalised root followed by zero or
  more ordinary elements: it is the normalised root or lies below it. When it lies
  strictly below, the directory that \<open>getSecureDirAndFilename\<close> returns with it is the
  path without its last element, so it is the normalised root or below it as well, and
  the file name is that last element. Both resolvers return a path whenever the local
  file system gives a plain answer (the path does not exist, or is not a symbolic
  link) for each path they look up; when a lookup fails or finds a symbolic link they
  may return an error instead.
\<close>

theorem resolved_path_under_normalised_root:
  "(\<forall>p. getSecureDir fs rootPath untrusted = Inr p \<longrightarrow>
      (\<exists>rs ds. (\<forall>e\<in>set (rs @ ds). ordinary e)
         \<and> SecureJoin fs ''.'' rootPath = Inr (render rs) \<and> p = render (rs @ ds)))
   \<and> (\<forall>p d b. getSecureDirAndFilename fs rootPath untrusted = Inr (p, d, b) \<longrightarrow>
      (\<exists>rs ds. (\<forall>e\<in>set (rs @ ds). ordinary e)
         \<and> SecureJoin fs ''.'' rootPath = Inr (render rs) \<and> p = render (rs @ ds)
         \<and> (ds \<noteq> [] \<longrightarrow> d = render (rs @ butlast ds) \<and> b = last ds)))
   \<and> ((\<forall>q\<in>set (resolverLookups rootPath untrusted). plain (fs q)) \<longrightarrow>
        (\<exists>p. getSecureDir fs rootPath untrusted = Inr p)
      \<and> (\<exists>p. getSecureDirAndFilename fs rootPath untrusted = Inr (p, Dir p, Base p)))"
proof (intro conjI allI impI)
  fix p
  assume "getSecureDir fs rootPath untrusted = Inr p"
  then obtain r where "SecureJoin fs ''.'' rootPath = Inr r" "SecureJoin fs r untrusted = Inr p"
    by (auto simp: getSecureDir_def split: sum.splits)
  then show "\<exists>rs ds. (\<forall>e\<in>set (rs @ ds). ordinary e)
         \<and> SecureJoin fs ''.'' rootPath = Inr (render rs) \<and> p = render (rs @ ds)"
    by (rule resolved_under)
next
  fix p d b
  assume "getSecureDirAndFilename fs rootPath untrusted = Inr (p, d, b)"
  then obtain r where r: "SecureJoin fs ''.'' rootPath = Inr r" "SecureJoin fs r untrusted = Inr p"
    and d: "d = Dir p" and b: "b = Base p"
    by (auto simp: getSecureDirAndFilename_def split: sum.splits)
  from r obtain rs ds where ord: "\<forall>e\<in>set (rs @ ds). ordinary e"
    and root: "SecureJoin fs ''.'' rootPath = Inr (render rs)" and p: "p = render (rs @ ds)"
    using resolved_under by blast
  have "d = render (rs @ butlast ds) \<and> b = last ds" if "ds \<noteq> []"
  proof -
    from that have split: "rs @ ds = (rs @ butlast ds) @ [last ds]" by simp
    from ord that have "\<forall>x\<in>set (rs @ butlast ds). ordinary x" and "ordinary (last ds)"
      by (auto dest: in_set_butlastD)
    from Dir_Base_below [OF this] show ?thesis
      unfolding d b p split by simp
  qed
  with ord root p
  show "\<exists>rs ds. (\<forall>e\<in>set (rs @ ds). ordinary e)
         \<and> SecureJoin fs ''.'' rootPath = Inr (render rs) \<and> p = render (rs @ ds)
         \<and> (ds \<noteq> [] \<longrightarrow> d = render (rs @ butlast ds) \<and> b = last ds)"
    by blast
next
  assume looked: "\<forall>q\<in>set (resolverLookups rootPath untrusted). plain (fs q)"
  show "\<exists>p. getSecureDir fs rootPath untrusted = Inr p"
    by (rule resolvers_plain(3) [OF looked])
  show "\<exists>p. getSecureDirAndFilename fs rootPath untrusted = Inr (p, Dir p, Base p)"
    by (rule resolvers_plain(4) [OF looked])
qed

theorem resolved_path_under_normalised_root_witness:
  "getSecureDir sampleFS ''/srv/ftp/data'' ''../../etc/passwd'' = Inr ''srv/ftp/data/etc/passwd''
   \<and> getSecureDirAndFilename sampleFS ''/srv/ftp/data'' ''../../etc/passwd''
       = Inr (''srv/ftp/data/etc/passwd'', ''srv/ftp/data/etc'', ''passwd'')
   \<and> list_all (\<lambda>q. plain (sampleFS q)) (resolverLookups ''/srv/ftp/data'' ''../../etc/passwd'')
   \<and> (\<exists>rs ds. (\<forall>e\<in>set (rs @ ds). ordinary e)
         \<and> SecureJoin sampleFS ''.'' ''/srv/ftp/data'' = Inr (render rs)
         \<and> ''srv/ftp/data/etc/passwd'' = render (rs @ ds))
   \<and> (\<exists>rs ds. (\<forall>e\<in>set (rs @ ds). ordinary e)
         \<and> SecureJoin sampleFS ''.'' ''/srv/ftp/data'' = Inr (render rs)
         \<and> ''srv/ftp/data/etc/passwd'' = render (rs @ ds)
         \<and> (ds \<noteq> [] \<longrightarrow> ''srv/ftp/data/etc'' = render (rs @ butlast ds)
                         \<and> ''passwd'' = last ds))
   \<and> (\<exists>p. getSecureDir sampleFS ''/srv/ftp/data'' ''../../etc/passwd'' = Inr p)
   \<and> (\<exists>p. getSecureDirAndFilename sampleFS ''/srv/ftp/data'' ''../../etc/passwd''
            = Inr (p, Dir p, Base p))
   \<and> \<not> plain (unreadableFS ''srv'')
   \<and> getSecureDir unreadableFS ''/srv/ftp/data'' ''../../etc/passwd''
       = Inl (LstatError ''permission denied'')"
proof -
  have a: "getSecureDir sampleFS ''/srv/ftp/data'' ''../../etc/passwd''
             = Inr ''srv/ftp/data/etc/passwd''"
    by code_simp
  have b: "getSecureDirAndFilename sampleFS ''/srv/ftp/data'' ''../../etc/passwd''
       = Inr (''srv/ftp/data/etc/passwd'', ''srv/ftp/data/etc'', ''passwd'')"
    by code_simp
  have c': "list_all (\<lambda>q. plain (sampleFS q))
              (resolverLookups ''/srv/ftp/data'' ''../../etc/passwd'')"
    by code_simp
  then have c: "\<forall>q\<in>set (resolverLookups ''/srv/ftp/data'' ''../../etc/passwd''). plain (sampleFS q)"
    by (simp only: list_all_iff)
  have d: "\<not> plain (unreadableFS ''srv'')"
    by code_simp
  have e: "getSecureDir unreadableFS ''/srv/ftp/data'' ''../../etc/passwd''
       = Inl (LstatError ''permission denied'')"
    by code_simp
  from a b c c' d e
    resolved_path_under_normalised_root [of sampleFS "''/srv/ftp/data''" "''../../etc/passwd''"]
  show ?thesis by blast
qed

text \<open>
  Claim C1 as stated fails for the configured root itself: with the root
  \<^verbatim>\<open>/srv/ftp/data\<close> the resolved paths are relative, \<^verbatim>\<open>srv/ftp/data/...\<close>, and
  neither equal the configured root nor start with it. And for a name that resolves to
  the root itself, the directory returned with the path is the parent of the root.
\<close>

theorem resolved_path_outside_configured_root:
  "getSecureDir noLinks ''/srv/ftp/data'' ''reports'' = Inr ''srv/ftp/data/reports''
   \<and> getSecureDirAndFilename noLinks ''/srv/ftp/data'' ''reports/out.txt''
       = Inr (''srv/ftp/data/reports/out.txt'', ''srv/ftp/data/reports'', ''out.txt'')
   \<and> \<not> hasPathPrefix ''/srv/ftp/data'' ''srv/ftp/data/reports''
   \<and> \<not> hasPathPrefix ''/srv/ftp/data'' ''srv/ftp/data/reports/out.txt''
   \<and> getSecureDirAndFilename noLinks ''/srv/ftp/data'' ''..''
       = Inr (''srv/ftp/data'', ''srv/ftp'', ''data'')"
  by code_simp

section \<open>Session termination\<close>

lemma merge_total: "\<exists>merged. mergeWithRequestMetadata f req = Inr merged"
  by (simp add: mergeWithRequestMetadata_def split: option.split)

lemma create_quit:
  assumes "create f fs srv req = (res, tr)"
  shows "(Quit \<in> set tr) = actionSucceeded srv [] tr"
proof -
  obtain m where m: "mergeWithRequestMetadata f req = Inr m"
    using merge_total by blast
  from assms show ?thesis
    by (auto simp add: create_def m Let_def createStore_def marshalCreateResponse_def attempt_def
          split: sum.splits prod.splits option.splits if_splits)
qed

lemma list_quit:
  assumes "list f fs srv req = (res, tr)"
  shows "(Quit \<in> set tr) = actionSucceeded srv [] tr"
proof -
  obtain m where m: "mergeWithRequestMetadata f req = Inr m"
    using merge_total by blast
  from assms show ?thesis
    by (auto simp add: list_def m Let_def marshalListResponse_def attempt_def
          split: sum.splits prod.splits option.splits if_splits)
qed

lemma get_quit:
  assumes "get f fs srv req = (res, tr)"
  shows "(Quit \<in> set tr) = actionSucceeded srv [] tr"
proof -
  obtain m where m: "mergeWithRequestMetadata f req = Inr m"
    using merge_total by blast
  from assms show ?thesis
    by (auto simp add: get_def m Let_def deferClose_def attempt_def
          split: sum.splits prod.splits option.splits if_splits)
qed

lemma delete_quit:
  assumes "delete f fs srv req = (res, tr)"
  shows "(Quit \<in> set tr) = actionSucceeded srv [] tr"
proof -
  obtain m where m: "mergeWithRequestMetadata f req = Inr m"
    using merge_total by blast
  from assms show ?thesis
    by (auto simp add: delete_def m Let_def attempt_def
          split: sum.splits prod.splits option.splits if_splits)
qed


text \<open>
  Claim C2, as the code has it. No handler closes the session on an error exit: the
  only \<^verbatim>\<open>c.Quit()\<close> of each handler follows its file action. For every operation that
  \<open>Invoke\<close> dispatches and every server, \<^verbatim>\<open>Quit\<close> is among the calls made exactly when
  the file action (\<^verbatim>\<open>Stor\<close>, \<^verbatim>\<open>List\<close>, \<^verbatim>\<open>Retr\<close> or \<^verbatim>\<open>Delete\<close>) was made and answered
  without error. On every other exit, the early returns after a failed dial, login,
  directory change, directory creation, store, list, retrieve or delete among them, the
  handler returns without \<^verbatim>\<open>Quit\<close>.
\<close>

theorem quit_only_after_successful_action:
  "(Quit \<in> set (snd (Invoke f fs srv req)))
     = actionSucceeded srv [] (snd (Invoke f fs srv req))"
proof -
  have c: "(Quit \<in> set (snd (create f fs srv req))) = actionSucceeded srv [] (snd (create f fs srv req))"
    by (rule create_quit [OF prod.collapse [symmetric]])
  have l: "(Quit \<in> set (snd (list f fs srv req))) = actionSucceeded srv [] (snd (list f fs srv req))"
    by (rule list_quit [OF prod.collapse [symmetric]])
  have g: "(Quit \<in> set (snd (get f fs srv req))) = actionSucceeded srv [] (snd (get f fs srv req))"
    by (rule get_quit [OF prod.collapse [symmetric]])
  have d: "(Quit \<in> set (snd (delete f fs srv req))) = actionSucceeded srv [] (snd (delete f fs srv req))"
    by (rule delete_quit [OF prod.collapse [symmetric]])
  show ?thesis
    unfolding Invoke_def using c l g d by simp
qed

theorem quit_only_after_successful_action_witness:
  "Quit \<in> set (snd (Invoke sampleConfig noLinks (serverFailing [])
                      (request ''delete'' [(''Filename'', ''reports/out.txt'')])))
   \<and> actionSucceeded (serverFailing []) []
         (snd (Invoke sampleConfig noLinks (serverFailing [])
                      (request ''delete'' [(''Filename'', ''reports/out.txt'')])))
   \<and> Quit \<notin> set (snd (Invoke sampleConfig noLinks (serverFailing [Delete ''out.txt''])
                      (request ''delete'' [(''Filename'', ''reports/out.txt'')])))
   \<and> \<not> actionSucceeded (serverFailing [Delete ''out.txt'']) []
         (snd (Invoke sampleConfig noLinks (serverFailing [Delete ''out.txt''])
                      (request ''delete'' [(''Filename'', ''reports/out.txt'')])))"
proof -
  have a: "Quit \<in> set (snd (Invoke sampleConfig noLinks (serverFailing [])
                      (request ''delete'' [(''Filename'', ''reports/out.txt'')])))"
    by code_simp
  have b: "Quit \<notin> set (snd (Invoke sampleConfig noLinks (serverFailing [Delete ''out.txt''])
                      (request ''delete'' [(''Filename'', ''reports/out.txt'')])))"
    by code_simp
  from a b
    quit_only_after_successful_action [of sampleConfig noLinks "serverFailing []"
      "request ''delete'' [(''Filename'', ''reports/out.txt'')]"]
    quit_only_after_successful_action [of sampleConfig noLinks "serverFailing [Delete ''out.txt'']"
      "request ''delete'' [(''Filename'', ''reports/out.txt'')]"]
  show ?thesis by simp
qed


text \<open>
  Claim C2 as stated fails: \<open>get\<close> returns after a failed directory change, and
  \<open>create\<close> after a failed store, with the session dialled and logged in and no
  \<^verbatim>\<open>Quit\<close> sent.
\<close>

theorem session_left_open_on_error:
  "get sampleConfig noLinks (serverFailing [ChangeDir ''srv/ftp/data/reports''])
       (request ''get'' [(''Filename'', ''reports/out.txt'')])
     = (Inl (DirectoryChangeError ''srv/ftp/data/reports'' ''550''),
        [Dial ''ftp.example:21'', Login ''u'' ''p'', ChangeDir ''srv/ftp/data/reports''])
   \<and> create sampleConfig noLinks (serverFailing [Stor ''out.txt'' ''hello''])
       (request ''create'' [(''Filename'', ''reports/out.txt'')])
     = (Inl (StoreError ''550''),
        [Dial ''ftp.example:21'', Login ''u'' ''p'', ChangeDir ''srv/ftp/data/reports'',
         Stor ''out.txt'' ''hello''])"
  by code_simp



section \<open>The create scenario\<close>

lemma merge_fields:
  assumes "mergeWithRequestMetadata f req = Inr m"
  shows "RootPath m = RootPath f" "Server m = Server f" "Port m = Port f"
    "User m = User f" "Password m = Password f"
  using assms by (auto simp add: mergeWithRequestMetadata_def split: option.splits if_splits)

lemma scenario_paths:
  assumes "\<forall>q\<in>set [''srv'', ''srv/ftp'', ''srv/ftp/data'', ''srv/ftp/data/reports'',
                    ''srv/ftp/data/reports/out.txt'']. plain (fs q)"
  shows "getSecureDirAndFilename fs ''/srv/ftp/data'' ''reports/out.txt''
           = Inr (''srv/ftp/data/reports/out.txt'', ''srv/ftp/data/reports'', ''out.txt'')"
proof -
  have "resolverLookups ''/srv/ftp/data'' ''reports/out.txt''
          = [''srv'', ''srv/ftp'', ''srv/ftp/data'', ''srv/ftp/data/reports'',
             ''srv/ftp/data/reports/out.txt'']"
    by code_simp
  with assms
  have "\<forall>q\<in>set (resolverLookups ''/srv/ftp/data'' ''reports/out.txt''). plain (fs q)"
    by (simp only:)
  then have "getSecureDirAndFilename fs ''/srv/ftp/data'' ''reports/out.txt''
          = getSecureDirAndFilename noLinks ''/srv/ftp/data'' ''reports/out.txt''"
    by (rule resolvers_plain(2))
  also have "\<dots> = Inr (''srv/ftp/data/reports/out.txt'', ''srv/ftp/data/reports'', ''out.txt'')"
    by code_simp
  finally show ?thesis .
qed

text \<open>
  Claim C3, as the code has it. Take the root path \<^verbatim>\<open>/srv/ftp/data\<close>, a create request
  whose metadata has \<^verbatim>\<open>reports/out.txt\<close> under the key \<^verbatim>\<open>Filename\<close>, and a local file
  system that gives a plain answer (the path does not exist, or is not a symbolic link)
  for each of the five paths looked up, \<^verbatim>\<open>srv\<close>, \<^verbatim>\<open>srv/ftp\<close>, \<^verbatim>\<open>srv/ftp/data\<close>,
  \<^verbatim>\<open>srv/ftp/data/reports\<close> and \<^verbatim>\<open>srv/ftp/data/reports/out.txt\<close>, whatever it answers
  for other paths. Then the resolved path is the relative path
  \<^verbatim>\<open>srv/ftp/data/reports/out.txt\<close>, with directory \<^verbatim>\<open>srv/ftp/data/reports\<close> and file
  name \<^verbatim>\<open>out.txt\<close>. Every success response of the create handler is made from the
  value with the single member \<^verbatim>\<open>fileName\<close> holding that relative path, and on a
  server that accepts every call the handler does succeed, after entering the directory
  and storing the payload under \<^verbatim>\<open>out.txt\<close>.
\<close>

theorem create_scenario_response:
  assumes root: "RootPath f = ''/srv/ftp/data''"
    and name: "Metadata req ''Filename'' = Some ''reports/out.txt''"
    and fs: "\<forall>q\<in>set [''srv'', ''srv/ftp'', ''srv/ftp/data'', ''srv/ftp/data/reports'',
                        ''srv/ftp/data/reports/out.txt'']. plain (fs q)"
  shows "getSecureDirAndFilename fs (RootPath f) ''reports/out.txt''
           = Inr (''srv/ftp/data/reports/out.txt'', ''srv/ftp/data/reports'', ''out.txt'')
     \<and> (\<forall>resp tr. create f fs srv req = (Inr resp, tr) \<longrightarrow>
           resp = JsonData (JObject [(''fileName'', JString ''srv/ftp/data/reports/out.txt'')]))
     \<and> ((\<forall>tr c. answer srv tr c = None) \<longrightarrow>
           create f fs srv req
             = (Inr (JsonData (JObject [(''fileName'', JString ''srv/ftp/data/reports/out.txt'')])),
                [Dial (Server f), Login (User f) (Password f),
                 ChangeDir ''srv/ftp/data/reports'', Stor ''out.txt'' (Data req), Quit]))"
proof -
  obtain m where m: "mergeWithRequestMetadata f req = Inr m"
    using merge_total by blast
  note mf = merge_fields [OF m]
  have paths: "getSecureDirAndFilename fs ''/srv/ftp/data'' ''reports/out.txt''
           = Inr (''srv/ftp/data/reports/out.txt'', ''srv/ftp/data/reports'', ''out.txt'')"
    by (rule scenario_paths [OF fs])
  have val: "metadataValue req ''Filename'' = ''reports/out.txt''"
    by (simp add: metadataValue_def name)
  have one: "resp = JsonData (JObject [(''fileName'', JString ''srv/ftp/data/reports/out.txt'')])"
    if "create f fs srv req = (Inr resp, tr)" for resp tr
    using that
    by (auto simp add: create_def m mf root val paths Let_def createStore_def
          marshalCreateResponse_def attempt_def split: option.splits)
  have two: "create f fs srv req
             = (Inr (JsonData (JObject [(''fileName'', JString ''srv/ftp/data/reports/out.txt'')])),
                [Dial (Server f), Login (User f) (Password f),
                 ChangeDir ''srv/ftp/data/reports'', Stor ''out.txt'' (Data req), Quit])"
    if "\<forall>tr c. answer srv tr c = None"
    using that
    by (simp add: create_def m mf root val paths Let_def createStore_def
          marshalCreateResponse_def attempt_def)
  show ?thesis
  proof (intro conjI allI impI)
    show "getSecureDirAndFilename fs (RootPath f) ''reports/out.txt''
           = Inr (''srv/ftp/data/reports/out.txt'', ''srv/ftp/data/reports'', ''out.txt'')"
      unfolding root by (rule paths)
  next
    fix resp tr
    assume "create f fs srv req = (Inr resp, tr)"
    then show "resp = JsonData (JObject [(''fileName'', JString ''srv/ftp/data/reports/out.txt'')])"
      by (rule one)
  next
    assume "\<forall>tr c. answer srv tr c = None"
    then show "create f fs srv req
             = (Inr (JsonData (JObject [(''fileName'', JString ''srv/ftp/data/reports/out.txt'')])),
                [Dial (Server f), Login (User f) (Password f),
                 ChangeDir ''srv/ftp/data/reports'', Stor ''out.txt'' (Data req), Quit])"
      by (rule two)
  qed
qed


theorem create_scenario_response_witness:
  "RootPath sampleConfig = ''/srv/ftp/data''
   \<and> Metadata (request ''create'' [(''Filename'', ''reports/out.txt'')]) ''Filename''
        = Some ''reports/out.txt''
   \<and> list_all (\<lambda>q. plain (sampleFS q))
         [''srv'', ''srv/ftp'', ''srv/ftp/data'', ''srv/ftp/data/reports'',
          ''srv/ftp/data/reports/out.txt'']
   \<and> (\<forall>tr c. answer (serverFailing []) tr c = None)
   \<and> getSecureDirAndFilename sampleFS (RootPath sampleConfig) ''reports/out.txt''
        = Inr (''srv/ftp/data/reports/out.txt'', ''srv/ftp/data/reports'', ''out.txt'')
   \<and> create sampleConfig sampleFS (serverFailing [])
        (request ''create'' [(''Filename'', ''reports/out.txt'')])
      = (Inr (JsonData (JObject [(''fileName'', JString ''srv/ftp/data/reports/out.txt'')])),
         [Dial ''ftp.example:21'', Login ''u'' ''p'',
          ChangeDir ''srv/ftp/data/reports'', Stor ''out.txt'' ''hello'', Quit])"
proof -
  have r: "RootPath sampleConfig = ''/srv/ftp/data''"
    by (simp add: sampleConfig_def)
  have n: "Metadata (request ''create'' [(''Filename'', ''reports/out.txt'')]) ''Filename''
        = Some ''reports/out.txt''"
    by (simp add: request_def)
  have p': "list_all (\<lambda>q. plain (sampleFS q))
         [''srv'', ''srv/ftp'', ''srv/ftp/data'', ''srv/ftp/data/reports'',
          ''srv/ftp/data/reports/out.txt'']"
    by code_simp
  then have p: "\<forall>q\<in>set [''srv'', ''srv/ftp'', ''srv/ftp/data'', ''srv/ftp/data/reports'',
                  ''srv/ftp/data/reports/out.txt'']. plain (sampleFS q)"
    by (simp only: list_all_iff)
  have a: "\<forall>tr c. answer (serverFailing []) tr c = None"
    by (simp add: serverFailing_def)
  note t = create_scenario_response [OF r n p, of "serverFailing []"]
  from t have g: "getSecureDirAndFilename sampleFS (RootPath sampleConfig) ''reports/out.txt''
        = Inr (''srv/ftp/data/reports/out.txt'', ''srv/ftp/data/reports'', ''out.txt'')"
    by (rule conjunct1)
  from t a have "create sampleConfig sampleFS (serverFailing [])
        (request ''create'' [(''Filename'', ''reports/out.txt'')])
      = (Inr (JsonData (JObject [(''fileName'', JString ''srv/ftp/data/reports/out.txt'')])),
         [Dial (Server sampleConfig), Login (User sampleConfig) (Password sampleConfig),
          ChangeDir ''srv/ftp/data/reports'',
          Stor ''out.txt'' (Data (request ''create'' [(''Filename'', ''reports/out.txt'')])), Quit])"
    by blast
  then have c: "create sampleConfig sampleFS (serverFailing [])
        (request ''create'' [(''Filename'', ''reports/out.txt'')])
      = (Inr (JsonData (JObject [(''fileName'', JString ''srv/ftp/data/reports/out.txt'')])),
         [Dial ''ftp.example:21'', Login ''u'' ''p'',
          ChangeDir ''srv/ftp/data/reports'', Stor ''out.txt'' ''hello'', Quit])"
    by (simp only: sampleConfig_def request_def ftpMetadata.simps InvokeRequest.simps)
  from r n p' a g c show ?thesis by blast
qed

text \<open>
  Claim C3 as stated fails: whichever spelling of the metadata key carries the file
  name, the response names \<^verbatim>\<open>srv/ftp/data/reports/out.txt\<close>, not the absolute
  \<^verbatim>\<open>/srv/ftp/data/reports/out.txt\<close>.
\<close>

theorem create_scenario_response_not_absolute:
  "create sampleConfig noLinks (serverFailing [])
        (request ''create'' [(''Filename'', ''reports/out.txt''), (''filename'', ''reports/out.txt'')])
      = (Inr (JsonData (JObject [(''fileName'', JString ''srv/ftp/data/reports/out.txt'')])),
         [Dial ''ftp.example:21'', Login ''u'' ''p'',
          ChangeDir ''srv/ftp/data/reports'', Stor ''out.txt'' ''hello'', Quit])
   \<and> fst (create sampleConfig noLinks (serverFailing [])
        (request ''create'' [(''Filename'', ''reports/out.txt''), (''filename'', ''reports/out.txt'')]))
      \<noteq> Inr (JsonData (JObject [(''fileName'', JString ''/srv/ftp/data/reports/out.txt'')]))"
  by code_simp



section \<open>Directory creation in the create handler\<close>

text \<open>
  Claim C4, as the code has it. Once the create handler has resolved the path, dialled
  and logged in: when the first change into the target directory succeeds, that is the
  only directory call it makes, and no directory is created. When the first change
  fails, exactly one \<^verbatim>\<open>MakeDir\<close> follows. If the \<^verbatim>\<open>MakeDir\<close> fails, the handler returns
  the directory-create error at once, without any second change of directory. If it
  succeeds, exactly one second change of directory follows, and when that fails too the
  handler returns the directory-change error with no further call.
\<close>

theorem create_directory_fallback:
  assumes name: "metadataValue req ''Filename'' \<noteq> []"
    and paths: "getSecureDirAndFilename fs (RootPath f) (metadataValue req ''Filename'')
                  = Inr (absPath, dir, exactFilename)"
    and dial: "answer srv [] (Dial (Server f)) = None"
    and login: "answer srv [Dial (Server f)] (Login (User f) (Password f)) = None"
  shows
    "(answer srv [Dial (Server f), Login (User f) (Password f)] (ChangeDir dir) = None \<longrightarrow>
        filter isDirCall (snd (create f fs srv req)) = [ChangeDir dir])
   \<and> (answer srv [Dial (Server f), Login (User f) (Password f)] (ChangeDir dir) \<noteq> None \<longrightarrow>
        (\<forall>err. answer srv [Dial (Server f), Login (User f) (Password f), ChangeDir dir]
                 (MakeDir dir) = Some err \<longrightarrow>
           create f fs srv req
             = (Inl (DirectoryCreateError dir err),
                [Dial (Server f), Login (User f) (Password f), ChangeDir dir, MakeDir dir]))
      \<and> (answer srv [Dial (Server f), Login (User f) (Password f), ChangeDir dir]
                 (MakeDir dir) = None \<longrightarrow>
           filter isDirCall (snd (create f fs srv req))
             = [ChangeDir dir, MakeDir dir, ChangeDir dir]
         \<and> (\<forall>err. answer srv [Dial (Server f), Login (User f) (Password f), ChangeDir dir,
                               MakeDir dir] (ChangeDir dir) = Some err \<longrightarrow>
              create f fs srv req
                = (Inl (DirectoryChangeError dir err),
                   [Dial (Server f), Login (User f) (Password f), ChangeDir dir, MakeDir dir,
                    ChangeDir dir]))))"
proof -
  obtain m where m: "mergeWithRequestMetadata f req = Inr m"
    using merge_total by blast
  note mf = merge_fields [OF m]
  note unfold = create_def m mf name paths dial login Let_def createStore_def
    marshalCreateResponse_def attempt_def
  have first_ok: "filter isDirCall (snd (create f fs srv req)) = [ChangeDir dir]"
    if "answer srv [Dial (Server f), Login (User f) (Password f)] (ChangeDir dir) = None"
    using that by (simp add: unfold split: option.split)
  have mkdir_fails: "create f fs srv req
             = (Inl (DirectoryCreateError dir err),
                [Dial (Server f), Login (User f) (Password f), ChangeDir dir, MakeDir dir])"
    if "answer srv [Dial (Server f), Login (User f) (Password f)] (ChangeDir dir) \<noteq> None"
      and "answer srv [Dial (Server f), Login (User f) (Password f), ChangeDir dir]
                 (MakeDir dir) = Some err" for err
    using that by (auto simp add: unfold split: option.split)
  have retried: "filter isDirCall (snd (create f fs srv req))
             = [ChangeDir dir, MakeDir dir, ChangeDir dir]"
    if "answer srv [Dial (Server f), Login (User f) (Password f)] (ChangeDir dir) \<noteq> None"
      and "answer srv [Dial (Server f), Login (User f) (Password f), ChangeDir dir]
                 (MakeDir dir) = None"
    using that by (auto simp add: unfold split: option.split)
  have retry_fails: "create f fs srv req
                = (Inl (DirectoryChangeError dir err),
                   [Dial (Server f), Login (User f) (Password f), ChangeDir dir, MakeDir dir,
                    ChangeDir dir])"
    if "answer srv [Dial (Server f), Login (User f) (Password f)] (ChangeDir dir) \<noteq> None"
      and "answer srv [Dial (Server f), Login (User f) (Password f), ChangeDir dir]
                 (MakeDir dir) = None"
      and "answer srv [Dial (Server f), Login (User f) (Password f), ChangeDir dir,
                               MakeDir dir] (ChangeDir dir) = Some err" for err
    using that by (auto simp add: unfold split: option.split)
  show ?thesis
    by (intro conjI allI impI) (erule first_ok mkdir_fails retried retry_fails, assumption?, assumption?)+
qed

theorem create_directory_fallback_witness:
  "metadataValue (reportRequest ''create'') ''Filename'' \<noteq> []
   \<and> getSecureDirAndFilename noLinks (RootPath sampleConfig)
         (metadataValue (reportRequest ''create'') ''Filename'')
       = Inr (''srv/ftp/data/reports/out.txt'', ''srv/ftp/data/reports'', ''out.txt'')
   \<and> filter isDirCall (snd (create sampleConfig noLinks (serverFailing [])
         (reportRequest ''create''))) = [ChangeDir ''srv/ftp/data/reports'']
   \<and> filter isDirCall (snd (create sampleConfig noLinks freshServer (reportRequest ''create'')))
       = [ChangeDir ''srv/ftp/data/reports'', MakeDir ''srv/ftp/data/reports'',
          ChangeDir ''srv/ftp/data/reports'']
   \<and> fst (create sampleConfig noLinks
         (serverFailing [ChangeDir ''srv/ftp/data/reports'', MakeDir ''srv/ftp/data/reports''])
         (reportRequest ''create''))
       = Inl (DirectoryCreateError ''srv/ftp/data/reports'' ''550'')
   \<and> fst (create sampleConfig noLinks (serverFailing [ChangeDir ''srv/ftp/data/reports''])
         (reportRequest ''create''))
       = Inl (DirectoryChangeError ''srv/ftp/data/reports'' ''550'')"
proof -
  let ?d = "''srv/ftp/data/reports''"
  let ?tr = "[Dial (Server sampleConfig), Login (User sampleConfig) (Password sampleConfig)]"
  have n: "metadataValue (reportRequest ''create'') ''Filename'' \<noteq> []"
    by code_simp
  have p: "getSecureDirAndFilename noLinks (RootPath sampleConfig)
         (metadataValue (reportRequest ''create'') ''Filename'')
       = Inr (''srv/ftp/data/reports/out.txt'', ?d, ''out.txt'')"
    by code_simp
  have ok: "answer (serverFailing cs) tr c = None" if "c \<notin> set cs" for cs tr c
    using that by (simp add: serverFailing_def)
  have no: "answer (serverFailing cs) tr c = Some ''550''" if "c \<in> set cs" for cs tr c
    using that by (simp add: serverFailing_def)
  have a: "filter isDirCall (snd (create sampleConfig noLinks (serverFailing [])
         (reportRequest ''create''))) = [ChangeDir ?d]"
    using create_directory_fallback [OF n p, of "serverFailing []"]
    by (simp add: ok)
  have fresh: "answer freshServer [] (Dial (Server sampleConfig)) = None"
      "answer freshServer [Dial (Server sampleConfig)]
         (Login (User sampleConfig) (Password sampleConfig)) = None"
      "answer freshServer ?tr (ChangeDir ?d) \<noteq> None"
      "answer freshServer (?tr @ [ChangeDir ?d]) (MakeDir ?d) = None"
    by (simp_all add: freshServer_def)
  have b: "filter isDirCall (snd (create sampleConfig noLinks freshServer (reportRequest ''create'')))
       = [ChangeDir ?d, MakeDir ?d, ChangeDir ?d]"
    using create_directory_fallback [OF n p fresh(1,2)] fresh(3,4) by simp
  have c: "fst (create sampleConfig noLinks (serverFailing [ChangeDir ?d, MakeDir ?d])
         (reportRequest ''create'')) = Inl (DirectoryCreateError ?d ''550'')"
    using create_directory_fallback [OF n p, of "serverFailing [ChangeDir ?d, MakeDir ?d]"]
    by (simp add: ok no)
  have d: "fst (create sampleConfig noLinks (serverFailing [ChangeDir ?d])
         (reportRequest ''create'')) = Inl (DirectoryChangeError ?d ''550'')"
    using create_directory_fallback [OF n p, of "serverFailing [ChangeDir ?d]"]
    by (simp add: ok no)
  from n p a b c d show ?thesis by blast
qed


text \<open>
  Claim C4 as stated fails where the directory creation itself fails: the handler
  returns after the \<^verbatim>\<open>MakeDir\<close>, and the directory change has been tried once, not
  twice.
\<close>

theorem create_no_retry_when_mkdir_fails:
  "create sampleConfig noLinks
       (serverFailing [ChangeDir ''srv/ftp/data/reports'', MakeDir ''srv/ftp/data/reports''])
       (request ''create'' [(''Filename'', ''reports/out.txt'')])
     = (Inl (DirectoryCreateError ''srv/ftp/data/reports'' ''550''),
        [Dial ''ftp.example:21'', Login ''u'' ''p'', ChangeDir ''srv/ftp/data/reports'',
         MakeDir ''srv/ftp/data/reports''])
   \<and> count_list (snd (create sampleConfig noLinks
       (serverFailing [ChangeDir ''srv/ftp/data/reports'', MakeDir ''srv/ftp/data/reports''])
       (request ''create'' [(''Filename'', ''reports/out.txt'')])))
       (ChangeDir ''srv/ftp/data/reports'') = 1"
  by code_simp



section \<open>The list handler\<close>

text \<open>
  Claim C5, as the code has it. The list handler dials and logs in first and resolves
  the (possibly overridden) directory only then, so a resolution error is returned with
  the session already open. It never changes into the directory and never creates one:
  it lists the resolved directory by passing its path to \<^verbatim>\<open>List\<close>, and a failure of
  that call, a missing directory included, is returned as a directory-list error. After
  a successful \<^verbatim>\<open>List\<close> it sends \<^verbatim>\<open>Quit\<close> and answers with the directory and the
  entries.
\<close>

theorem list_steps:
  assumes m: "mergeWithRequestMetadata f req = Inr metadata"
  shows
    "(\<forall>d. ChangeDir d \<notin> set (snd (list f fs srv req))
          \<and> MakeDir d \<notin> set (snd (list f fs srv req)))
   \<and> (answer srv [] (Dial (Server metadata)) = None
      \<and> answer srv [Dial (Server metadata)] (Login (User metadata) (Password metadata)) = None
      \<and> getSecureDir fs (RootPath metadata) (Directory metadata) = Inl perr
      \<longrightarrow> list f fs srv req
            = (Inl (SecureDirError (Directory metadata) perr),
               [Dial (Server metadata), Login (User metadata) (Password metadata)]))
   \<and> (answer srv [] (Dial (Server metadata)) = None
      \<and> answer srv [Dial (Server metadata)] (Login (User metadata) (Password metadata)) = None
      \<and> getSecureDir fs (RootPath metadata) (Directory metadata) = Inr dir
      \<and> answer srv [Dial (Server metadata), Login (User metadata) (Password metadata)]
           (List dir) = Some err
      \<longrightarrow> list f fs srv req
            = (Inl (DirectoryListError dir err),
               [Dial (Server metadata), Login (User metadata) (Password metadata), List dir]))
   \<and> (answer srv [] (Dial (Server metadata)) = None
      \<and> answer srv [Dial (Server metadata)] (Login (User metadata) (Password metadata)) = None
      \<and> getSecureDir fs (RootPath metadata) (Directory metadata) = Inr dir
      \<and> answer srv [Dial (Server metadata), Login (User metadata) (Password metadata)]
           (List dir) = None
      \<and> answer srv [Dial (Server metadata), Login (User metadata) (Password metadata),
                     List dir] Quit = None
      \<longrightarrow> list f fs srv req
            = (Inr (JsonData (JObject
                 [(''directory'', JString dir),
                  (''fileInfos'',
                   if entries srv [Dial (Server metadata),
                                   Login (User metadata) (Password metadata)] = []
                   then JNull
                   else JArray (map fileInfoJson
                          (entries srv [Dial (Server metadata),
                                        Login (User metadata) (Password metadata)])))])),
               [Dial (Server metadata), Login (User metadata) (Password metadata),
                List dir, Quit]))"
proof -
  note unfold = list_def m Let_def marshalListResponse_def attempt_def
  have no_dir: "ChangeDir d \<notin> set (snd (list f fs srv req))
          \<and> MakeDir d \<notin> set (snd (list f fs srv req))" for d
    by (simp add: unfold split: option.split sum.split)
  show ?thesis
  proof (intro conjI allI impI; (elim conjE)?)
    fix d
    show "ChangeDir d \<notin> set (snd (list f fs srv req))" using no_dir [of d] by simp
    show "MakeDir d \<notin> set (snd (list f fs srv req))" using no_dir [of d] by simp
  qed (simp_all add: unfold)
qed


theorem list_steps_witness:
  "mergeWithRequestMetadata sampleConfig (request ''list'' [(''Directory'', ''reports'')])
     = Inr (sampleConfig\<lparr>Directory := ''reports''\<rparr>)
   \<and> list sampleConfig noLinks (serverFailing []) (request ''list'' [(''Directory'', ''reports'')])
     = (Inr (JsonData (JObject
          [(''directory'', JString ''srv/ftp/data/reports''),
           (''fileInfos'', JArray [JObject [(''filename'', JString ''out.txt''),
                                            (''filetype'', JString ''file'')]])])),
        [Dial ''ftp.example:21'', Login ''u'' ''p'', List ''srv/ftp/data/reports'', Quit])
   \<and> list sampleConfig unreadableFS (serverFailing [])
        (request ''list'' [(''Directory'', ''reports'')])
     = (Inl (SecureDirError ''reports'' (LstatError ''permission denied'')),
        [Dial ''ftp.example:21'', Login ''u'' ''p''])
   \<and> list sampleConfig noLinks (serverFailing [List ''srv/ftp/data/reports''])
        (request ''list'' [(''Directory'', ''reports'')])
     = (Inl (DirectoryListError ''srv/ftp/data/reports'' ''550''),
        [Dial ''ftp.example:21'', Login ''u'' ''p'', List ''srv/ftp/data/reports''])"
proof -
  let ?rq = "request ''list'' [(''Directory'', ''reports'')]"
  let ?m = "sampleConfig\<lparr>Directory := ''reports''\<rparr>"
  have m: "mergeWithRequestMetadata sampleConfig ?rq = Inr ?m"
    by (simp add: mergeWithRequestMetadata_def request_def)
  have g: "getSecureDir noLinks (RootPath ?m) (Directory ?m) = Inr ''srv/ftp/data/reports''"
    by code_simp
  have u: "getSecureDir unreadableFS (RootPath ?m) (Directory ?m)
             = Inl (LstatError ''permission denied'')"
    by code_simp
  have fields: "Server ?m = ''ftp.example:21''" "User ?m = ''u''" "Password ?m = ''p''"
      "Directory ?m = ''reports''"
    by (simp_all add: sampleConfig_def)
  have a: "list sampleConfig noLinks (serverFailing []) ?rq
     = (Inr (JsonData (JObject
          [(''directory'', JString ''srv/ftp/data/reports''),
           (''fileInfos'', JArray [JObject [(''filename'', JString ''out.txt''),
                                            (''filetype'', JString ''file'')]])])),
        [Dial ''ftp.example:21'', Login ''u'' ''p'', List ''srv/ftp/data/reports'', Quit])"
    using list_steps [OF m, of noLinks "serverFailing []" _ "''srv/ftp/data/reports''"] g
    by (simp add: fields serverFailing_def fileInfoJson_def)
  have b: "list sampleConfig unreadableFS (serverFailing []) ?rq
     = (Inl (SecureDirError ''reports'' (LstatError ''permission denied'')),
        [Dial ''ftp.example:21'', Login ''u'' ''p''])"
    using list_steps [OF m, of unreadableFS "serverFailing []" "LstatError ''permission denied''"] u
    by (simp add: fields serverFailing_def)
  have c: "list sampleConfig noLinks (serverFailing [List ''srv/ftp/data/reports'']) ?rq
     = (Inl (DirectoryListError ''srv/ftp/data/reports'' ''550''),
        [Dial ''ftp.example:21'', Login ''u'' ''p'', List ''srv/ftp/data/reports''])"
    using list_steps [OF m, of noLinks "serverFailing [List ''srv/ftp/data/reports'']" _
        "''srv/ftp/data/reports''" "''550''"] g
    by (simp add: fields serverFailing_def)
  from m a b c show ?thesis by blast
qed


text \<open>
  Claim C5 as stated fails: on a server that accepts every call the handler makes four
  calls, none of them a change of directory, and when the directory cannot be resolved
  it has dialled and logged in before it returns the resolution error.
\<close>

theorem list_without_directory_change:
  "list sampleConfig noLinks (serverFailing []) (request ''list'' [(''Directory'', ''reports'')])
     = (Inr (JsonData (JObject
          [(''directory'', JString ''srv/ftp/data/reports''),
           (''fileInfos'', JArray [JObject [(''filename'', JString ''out.txt''),
                                            (''filetype'', JString ''file'')]])])),
        [Dial ''ftp.example:21'', Login ''u'' ''p'', List ''srv/ftp/data/reports'', Quit])
   \<and> ChangeDir ''srv/ftp/data/reports''
       \<notin> set (snd (list sampleConfig noLinks (serverFailing [])
                       (request ''list'' [(''Directory'', ''reports'')])))
   \<and> list sampleConfig unreadableFS (serverFailing [])
        (request ''list'' [(''Directory'', ''reports'')])
     = (Inl (SecureDirError ''reports'' (LstatError ''permission denied'')),
        [Dial ''ftp.example:21'', Login ''u'' ''p''])"
  by code_simp


section \<open>The required file name\<close>

text \<open>
  Claim C6, as the code has it. The handlers read the file name from the metadata key
  \<^verbatim>\<open>Filename\<close>, with a capital F. For every create, get or delete request in which the
  value under that key is absent or the empty string, the handler fails with the
  filename-is-empty error and makes no call on the FTP server at all.
\<close>

theorem empty_filename_rejected:
  assumes "Metadata req ''Filename'' = None \<or> Metadata req ''Filename'' = Some []"
  shows "create f fs srv req = (Inl FilenameEmpty, [])
       \<and> get f fs srv req = (Inl FilenameEmpty, [])
       \<and> delete f fs srv req = (Inl FilenameEmpty, [])"
proof -
  obtain m where m: "mergeWithRequestMetadata f req = Inr m"
    using merge_total by blast
  from assms have empty: "metadataValue req ''Filename'' = []"
    by (auto simp add: metadataValue_def)
  show ?thesis
    by (simp add: create_def get_def delete_def m empty)
qed

theorem empty_filename_rejected_witness:
  "(Metadata (request ''create'' []) ''Filename'' = None
      \<or> Metadata (request ''create'' []) ''Filename'' = Some [])
   \<and> create sampleConfig noLinks (serverFailing []) (request ''create'' [])
       = (Inl FilenameEmpty, [])
   \<and> (Metadata (request ''get'' [(''Filename'', '''')]) ''Filename'' = None
      \<or> Metadata (request ''get'' [(''Filename'', '''')]) ''Filename'' = Some [])
   \<and> get sampleConfig noLinks (serverFailing []) (request ''get'' [(''Filename'', '''')])
       = (Inl FilenameEmpty, [])
   \<and> delete sampleConfig noLinks (serverFailing []) (request ''delete'' [(''Filename'', '''')])
       = (Inl FilenameEmpty, [])"
proof -
  have a: "Metadata (request ''create'' []) ''Filename'' = None
      \<or> Metadata (request ''create'' []) ''Filename'' = Some []"
    by (simp add: request_def)
  have b: "Metadata (request ''get'' [(''Filename'', '''')]) ''Filename'' = None
      \<or> Metadata (request ''get'' [(''Filename'', '''')]) ''Filename'' = Some []"
    by (simp add: request_def)
  have c: "Metadata (request ''delete'' [(''Filename'', '''')]) ''Filename'' = None
      \<or> Metadata (request ''delete'' [(''Filename'', '''')]) ''Filename'' = Some []"
    by (simp add: request_def)
  from a b
    empty_filename_rejected [OF a, of sampleConfig noLinks "serverFailing []"]
    empty_filename_rejected [OF b, of sampleConfig noLinks "serverFailing []"]
    empty_filename_rejected [OF c, of sampleConfig noLinks "serverFailing []"]
  show ?thesis by blast
qed


text \<open>
  Claim C6 as stated fails for the key \<^verbatim>\<open>filename\<close>: a request that has nothing under
  \<^verbatim>\<open>filename\<close> but names the file under \<^verbatim>\<open>Filename\<close> is not rejected; create opens a
  connection and stores the file, and get and delete go on as well.
\<close>

theorem lowercase_filename_key_not_read:
  "Metadata (request ''create'' [(''Filename'', ''a.txt'')]) ''filename'' = None
   \<and> create sampleConfig noLinks (serverFailing []) (request ''create'' [(''Filename'', ''a.txt'')])
       = (Inr (JsonData (JObject [(''fileName'', JString ''srv/ftp/data/a.txt'')])),
          [Dial ''ftp.example:21'', Login ''u'' ''p'', ChangeDir ''srv/ftp/data'',
           Stor ''a.txt'' ''hello'', Quit])
   \<and> get sampleConfig noLinks (serverFailing []) (request ''get'' [(''Filename'', ''a.txt'')])
       \<noteq> (Inl FilenameEmpty, [])
   \<and> delete sampleConfig noLinks (serverFailing []) (request ''delete'' [(''Filename'', ''a.txt'')])
       \<noteq> (Inl FilenameEmpty, [])"
  by code_simp


section \<open>The get handler\<close>

text \<open>
  Claim C7, as the code has it. Whenever the get handler succeeds, its response is the
  bytes that reading the retrieval stream to its end returned, as the raw payload with
  no JSON around them, and the calls it made are, in this order: dial, login, change of
  directory, \<^verbatim>\<open>Retr\<close>, \<^verbatim>\<open>Quit\<close>, the read of the whole stream, and the close of the
  stream. The session is terminated after the retrieval is started and before the
  stream is drained; the stream is released last, when the handler returns.
\<close>

theorem get_returns_raw_content:
  assumes "get f fs srv req = (Inr resp, tr)"
  shows "\<exists>metadata absPath dir exactFilename.
           mergeWithRequestMetadata f req = Inr metadata
         \<and> getSecureDirAndFilename fs (RootPath f) (metadataValue req ''Filename'')
             = Inr (absPath, dir, exactFilename)
         \<and> tr = [Dial (Server metadata), Login (User metadata) (Password metadata),
                  ChangeDir dir, Retr exactFilename, Quit, ReadAll, CloseStream]
         \<and> resp = RawData (content srv
                  [Dial (Server metadata), Login (User metadata) (Password metadata),
                   ChangeDir dir, Retr exactFilename, Quit])"
proof -
  obtain m where m: "mergeWithRequestMetadata f req = Inr m"
    using merge_total by blast
  from assms show ?thesis
    by (auto simp add: get_def m Let_def deferClose_def attempt_def
          split: sum.splits prod.splits option.splits if_splits)
qed

theorem get_returns_raw_content_witness:
  "get sampleConfig noLinks (serverFailing []) (reportRequest ''get'')
     = (Inr (RawData ''hello''),
        [Dial ''ftp.example:21'', Login ''u'' ''p'', ChangeDir ''srv/ftp/data/reports'',
         Retr ''out.txt'', Quit, ReadAll, CloseStream])
   \<and> (\<exists>metadata absPath dir exactFilename.
           mergeWithRequestMetadata sampleConfig (reportRequest ''get'') = Inr metadata
         \<and> getSecureDirAndFilename noLinks (RootPath sampleConfig)
              (metadataValue (reportRequest ''get'') ''Filename'')
             = Inr (absPath, dir, exactFilename)
         \<and> [Dial ''ftp.example:21'', Login ''u'' ''p'', ChangeDir ''srv/ftp/data/reports'',
             Retr ''out.txt'', Quit, ReadAll, CloseStream]
             = [Dial (Server metadata), Login (User metadata) (Password metadata),
                  ChangeDir dir, Retr exactFilename, Quit, ReadAll, CloseStream]
         \<and> RawData ''hello'' = RawData (content (serverFailing [])
                  [Dial (Server metadata), Login (User metadata) (Password metadata),
                   ChangeDir dir, Retr exactFilename, Quit]))"
proof -
  have a: "get sampleConfig noLinks (serverFailing []) (reportRequest ''get'')
     = (Inr (RawData ''hello''),
        [Dial ''ftp.example:21'', Login ''u'' ''p'', ChangeDir ''srv/ftp/data/reports'',
         Retr ''out.txt'', Quit, ReadAll, CloseStream])"
    by code_simp
  from a get_returns_raw_content [OF a] show ?thesis by blast
qed


text \<open>
  Claim C7 as stated fails in its second half: on a successful get neither the read of
  the stream nor its close comes before \<^verbatim>\<open>Quit\<close>; \<^verbatim>\<open>Quit\<close> comes before both.
\<close>

theorem get_quits_before_reading:
  "snd (get sampleConfig noLinks (serverFailing []) (reportRequest ''get''))
     = [Dial ''ftp.example:21'', Login ''u'' ''p'', ChangeDir ''srv/ftp/data/reports'',
        Retr ''out.txt'', Quit, ReadAll, CloseStream]
   \<and> \<not> issuedBefore ReadAll Quit
         (snd (get sampleConfig noLinks (serverFailing []) (reportRequest ''get'')))
   \<and> \<not> issuedBefore CloseStream Quit
         (snd (get sampleConfig noLinks (serverFailing []) (reportRequest ''get'')))
   \<and> issuedBefore Quit ReadAll
         (snd (get sampleConfig noLinks (serverFailing []) (reportRequest ''get'')))"
  by code_simp


section \<open>The delete handler\<close>

text \<open>
  Claim C9, as the code has it. Once the delete handler has resolved the path, dialled,
  logged in and entered the directory: if the server rejects the \<^verbatim>\<open>Delete\<close>, as it does
  for a file that is not there, the handler returns the file-delete error and makes no
  further call; if the \<^verbatim>\<open>Delete\<close> and the \<^verbatim>\<open>Quit\<close> after it both succeed, it returns the
  empty payload; if the \<^verbatim>\<open>Delete\<close> succeeds and the \<^verbatim>\<open>Quit\<close> fails, it returns the
  quit error.
\<close>

theorem delete_outcomes:
  assumes name: "metadataValue req ''Filename'' \<noteq> []"
    and paths: "getSecureDirAndFilename fs (RootPath f) (metadataValue req ''Filename'')
                  = Inr (absPath, dir, exactFilename)"
    and dial: "answer srv [] (Dial (Server f)) = None"
    and login: "answer srv [Dial (Server f)] (Login (User f) (Password f)) = None"
    and chdir: "answer srv [Dial (Server f), Login (User f) (Password f)] (ChangeDir dir) = None"
  shows
    "(answer srv [Dial (Server f), Login (User f) (Password f), ChangeDir dir]
        (Delete exactFilename) = Some err
      \<longrightarrow> delete f fs srv req
            = (Inl (FileDeleteError exactFilename err),
               [Dial (Server f), Login (User f) (Password f), ChangeDir dir,
                Delete exactFilename]))
   \<and> (answer srv [Dial (Server f), Login (User f) (Password f), ChangeDir dir]
        (Delete exactFilename) = None
      \<and> answer srv [Dial (Server f), Login (User f) (Password f), ChangeDir dir,
                     Delete exactFilename] Quit = None
      \<longrightarrow> delete f fs srv req
            = (Inr NoData,
               [Dial (Server f), Login (User f) (Password f), ChangeDir dir,
                Delete exactFilename, Quit]))
   \<and> (answer srv [Dial (Server f), Login (User f) (Password f), ChangeDir dir]
        (Delete exactFilename) = None
      \<and> answer srv [Dial (Server f), Login (User f) (Password f), ChangeDir dir,
                     Delete exactFilename] Quit = Some qerr
      \<longrightarrow> delete f fs srv req
            = (Inl (QuitError qerr),
               [Dial (Server f), Login (User f) (Password f), ChangeDir dir,
                Delete exactFilename, Quit]))"
proof -
  obtain m where m: "mergeWithRequestMetadata f req = Inr m"
    using merge_total by blast
  note mf = merge_fields [OF m]
  show ?thesis
    by (simp add: delete_def m mf name paths dial login chdir Let_def attempt_def)
qed

theorem delete_outcomes_witness:
  "metadataValue (reportRequest ''delete'') ''Filename'' \<noteq> []
   \<and> getSecureDirAndFilename noLinks (RootPath sampleConfig)
         (metadataValue (reportRequest ''delete'') ''Filename'')
       = Inr (''srv/ftp/data/reports/out.txt'', ''srv/ftp/data/reports'', ''out.txt'')
   \<and> fst (delete sampleConfig noLinks (serverFailing []) (reportRequest ''delete'')) = Inr NoData
   \<and> fst (delete sampleConfig noLinks (serverFailing [Delete ''out.txt''])
           (reportRequest ''delete''))
       = Inl (FileDeleteError ''out.txt'' ''550'')
   \<and> fst (delete sampleConfig noLinks (serverFailing [Quit]) (reportRequest ''delete''))
       = Inl (QuitError ''550'')"
proof -
  have n: "metadataValue (reportRequest ''delete'') ''Filename'' \<noteq> []"
    by code_simp
  have p: "getSecureDirAndFilename noLinks (RootPath sampleConfig)
         (metadataValue (reportRequest ''delete'') ''Filename'')
       = Inr (''srv/ftp/data/reports/out.txt'', ''srv/ftp/data/reports'', ''out.txt'')"
    by code_simp
  have ok: "answer (serverFailing cs) tr c = None" if "c \<notin> set cs" for cs tr c
    using that by (simp add: serverFailing_def)
  have no: "answer (serverFailing cs) tr c = Some ''550''" if "c \<in> set cs" for cs tr c
    using that by (simp add: serverFailing_def)
  have a: "fst (delete sampleConfig noLinks (serverFailing []) (reportRequest ''delete''))
             = Inr NoData"
    using delete_outcomes [OF n p, of "serverFailing []"] by (simp add: ok)
  have b: "fst (delete sampleConfig noLinks (serverFailing [Delete ''out.txt''])
             (reportRequest ''delete'')) = Inl (FileDeleteError ''out.txt'' ''550'')"
    using delete_outcomes [OF n p, of "serverFailing [Delete ''out.txt'']" "''550''"]
    by (simp add: ok no)
  have c: "fst (delete sampleConfig noLinks (serverFailing [Quit]) (reportRequest ''delete''))
             = Inl (QuitError ''550'')"
    using delete_outcomes [OF n p, of "serverFailing [Quit]" _ "''550''"]
    by (simp add: ok no)
  from n p a b c show ?thesis by blast
qed


text \<open>
  Claim C9 as stated fails in its first half: the server's delete command succeeds, the
  \<^verbatim>\<open>Quit\<close> after it does not, and the handler returns an error, not the empty payload.
\<close>

theorem delete_succeeds_but_handler_fails:
  "answer (serverFailing [Quit])
      [Dial ''ftp.example:21'', Login ''u'' ''p'', ChangeDir ''srv/ftp/data/reports'']
      (Delete ''out.txt'') = None
   \<and> delete sampleConfig noLinks (serverFailing [Quit]) (reportRequest ''delete'')
     = (Inl (QuitError ''550''),
        [Dial ''ftp.example:21'', Login ''u'' ''p'', ChangeDir ''srv/ftp/data/reports'',
         Delete ''out.txt'', Quit])"
  by code_simp


section \<open>Merging the configuration with the request\<close>

text \<open>
  Claim C8. \<open>mergeWithRequestMetadata\<close> is a function of the static configuration and
  the request alone. Its result has the root path, server, port, user and password of
  the static configuration; its directory is the value the request has under the key
  \<^verbatim>\<open>Directory\<close> when that value is there and not empty, and the directory of the static
  configuration when the value is absent or empty.
\<close>

theorem merge_replaces_only_directory:
  "\<exists>merged. mergeWithRequestMetadata metadata req = Inr merged
     \<and> RootPath merged = RootPath metadata \<and> Server merged = Server metadata
     \<and> Port merged = Port metadata \<and> User merged = User metadata
     \<and> Password merged = Password metadata
     \<and> (\<forall>val. Metadata req ''Directory'' = Some val \<and> val \<noteq> [] \<longrightarrow> Directory merged = val)
     \<and> (Metadata req ''Directory'' = None \<or> Metadata req ''Directory'' = Some []
          \<longrightarrow> Directory merged = Directory metadata)"
  by (simp add: mergeWithRequestMetadata_def split: option.split)

theorem merge_replaces_only_directory_witness:
  "mergeWithRequestMetadata sampleConfig (request ''list'' [(''Directory'', ''reports'')])
     = Inr (sampleConfig\<lparr>Directory := ''reports''\<rparr>)
   \<and> mergeWithRequestMetadata sampleConfig (request ''list'' [(''Directory'', '''')])
     = Inr sampleConfig
   \<and> mergeWithRequestMetadata sampleConfig (request ''list'' []) = Inr sampleConfig"
  using merge_replaces_only_directory [of sampleConfig "request ''list'' [(''Directory'', ''reports'')]"]
        merge_replaces_only_directory [of sampleConfig "request ''list'' [(''Directory'', '''')]"]
        merge_replaces_only_directory [of sampleConfig "request ''list'' []"]
  by (auto simp add: request_def sampleConfig_def)


text \<open>
  Claim C10. \<open>mergeWithRequestMetadata\<close> returns a configuration, never an error, for
  every configuration and request; so none of the four handlers ever returns the
  error-merging-metadata error, whatever the file system and the server do.
\<close>

theorem merge_error_unreachable:
  "(\<exists>merged. mergeWithRequestMetadata f req = Inr merged)
   \<and> fst (create f fs srv req) \<noteq> Inl (MergeMetadataError err)
   \<and> fst (list f fs srv req) \<noteq> Inl (MergeMetadataError err)
   \<and> fst (get f fs srv req) \<noteq> Inl (MergeMetadataError err)
   \<and> fst (delete f fs srv req) \<noteq> Inl (MergeMetadataError err)"
proof -
  obtain merged where m: "mergeWithRequestMetadata f req = Inr merged"
    using merge_total by blast
  have c: "fst (create f fs srv req) \<noteq> Inl (MergeMetadataError err)"
    by (simp add: create_def m createStore_def marshalCreateResponse_def attempt_def Let_def
          split: sum.split prod.split option.split)
  have l: "fst (list f fs srv req) \<noteq> Inl (MergeMetadataError err)"
    by (simp add: list_def m marshalListResponse_def attempt_def Let_def
          split: sum.split prod.split option.split)
  have g: "fst (get f fs srv req) \<noteq> Inl (MergeMetadataError err)"
    by (simp add: get_def m deferClose_def attempt_def Let_def
          split: sum.split prod.split option.split)
  have d: "fst (delete f fs srv req) \<noteq> Inl (MergeMetadataError err)"
    by (simp add: delete_def m attempt_def Let_def
          split: sum.split prod.split option.split)
  from m c l g d show ?thesis by blast
qed

theorem merge_error_unreachable_witness:
  "mergeWithRequestMetadata sampleConfig (reportRequest ''create'') = Inr sampleConfig
   \<and> fst (create sampleConfig noLinks (serverFailing []) (reportRequest ''create''))
       \<noteq> Inl (MergeMetadataError ''any'')
   \<and> fst (list sampleConfig noLinks (serverFailing []) (reportRequest ''create''))
       \<noteq> Inl (MergeMetadataError ''any'')
   \<and> fst (get sampleConfig noLinks (serverFailing []) (reportRequest ''create''))
       \<noteq> Inl (MergeMetadataError ''any'')
   \<and> fst (delete sampleConfig noLinks (serverFailing []) (reportRequest ''create''))
       \<noteq> Inl (MergeMetadataError ''any'')"
proof -
  have a: "mergeWithRequestMetadata sampleConfig (reportRequest ''create'') = Inr sampleConfig"
    by (simp add: mergeWithRequestMetadata_def reportRequest_def request_def)
  from a merge_error_unreachable [of sampleConfig "reportRequest ''create''" noLinks
      "serverFailing []" "''any''"]
  show ?thesis by blast
qed


end
